theory Spec2Isabelle
  imports Main "HOL-Library.AList" "HOL-Library.Multiset"
begin

section \<open>Errors and log records\<close>

text \<open>
  The Python exceptions that the repackaging code can meet, and the three messages it
  can write with \<open>logger.error\<close> (lines 69, 72 and 111, 75). A log record keeps the
  exception and the values the message is formatted with.
\<close>

datatype error = KeyError | ValueError | OSError | UnboundLocalError

datatype log_entry =
    FailedAddSingleRead error string string
  | FailedWriteMultiRead error string
  | FailedCopyFrom error string

section \<open>Containers and the file system\<close>

text \<open>
  A read carries its \<open>run_id\<close> attribute (absent when the attribute is missing from the
  read's group) and its named data groups, in the order the handle lists them. A group is
  an opaque payload; \<open>Unreadable\<close> stands for a payload whose copy fails.
\<close>

datatype blob = Unreadable | Data string

record fast5_read =
  run_id :: "string option"
  groups :: "(string \<times> blob) list"

type_synonym container = "(string \<times> fast5_read) list"

text \<open>
  A file is a container or some other file, which is kept as the list of its lines, each
  with its line end, as \<open>readlines\<close> returns them. The world of a run is the file
  system, the log written so far and the paths of the handles that are open.
\<close>

datatype disk_file = Fast5 container | Other "string list"

type_synonym filesystem = "string \<Rightarrow> disk_file option"

record world =
  fs :: filesystem
  log :: "log_entry list"
  handles :: "string list"

definition log_error :: "log_entry \<Rightarrow> 'a world_scheme \<Rightarrow> 'a world_scheme" where
  "log_error m w = w\<lparr>log := log w @ [m]\<rparr>"

subsection \<open>The container interface\<close>

text \<open>
  Modelled from the spec: the class \<open>MultiFast5File\<close> of \<open>ont_fast5_api.multi_fast5\<close>
  is not part of the sources at hand. The spec (section 6) gives its operations:
  \<open>open(path, mode)\<close> with the modes read and append-or-create, \<open>listReadIds\<close>,
  \<open>getRead\<close>, \<open>createRead\<close>, \<open>copyGroup\<close> and \<open>close\<close>; read ids are unique within a
  container (section 3). Opening for reading needs an existing container; opening in mode
  append-or-create makes an empty container where no file exists; a file that is not a
  container cannot be opened in either mode. A container opened for reading is read as it
  was when it was opened; a container opened for appending is written through its path.
\<close>

definition open_read :: "filesystem \<Rightarrow> string \<Rightarrow> error + container" where
  "open_read f p = (case f p of Some (Fast5 c) \<Rightarrow> Inr c | _ \<Rightarrow> Inl OSError)"

definition open_append :: "filesystem \<Rightarrow> string \<Rightarrow> error + filesystem" where
  "open_append f p =
     (case f p of
        None \<Rightarrow> Inr (f(p \<mapsto> Fast5 []))
      | Some (Fast5 c) \<Rightarrow> Inr f
      | Some (Other t) \<Rightarrow> Inl OSError)"

definition open_handle :: "string \<Rightarrow> 'a world_scheme \<Rightarrow> 'a world_scheme" where
  "open_handle p w = w\<lparr>handles := p # handles w\<rparr>"

definition close :: "string \<Rightarrow> 'a world_scheme \<Rightarrow> 'a world_scheme" where
  "close p w = w\<lparr>handles := remove1 p (handles w)\<rparr>"

definition get_read_ids :: "container \<Rightarrow> string list" where
  "get_read_ids c = map fst c"

definition get_read :: "container \<Rightarrow> string \<Rightarrow> error + fast5_read" where
  "get_read c read_id = (case map_of c read_id of None \<Rightarrow> Inl KeyError | Some r \<Rightarrow> Inr r)"

text \<open>
  Modelled from the spec: \<open>create_read\<close> adds a read entry with the given run id and no
  groups; since read ids are unique within a container, it raises for an id that the
  container already holds.
\<close>

definition create_read :: "container \<Rightarrow> string \<Rightarrow> string \<Rightarrow> error + container" where
  "create_read c read_id rid =
     (if read_id \<in> set (get_read_ids c) then Inl ValueError
      else Inr (c @ [(read_id, \<lparr>run_id = Some rid, groups = []\<rparr>)]))"

text \<open>
  Modelled from the spec: \<open>handle.copy(group, name)\<close> copies one group verbatim into the
  read \<open>read_id\<close> of the destination. It raises when the payload cannot be read, when the
  destination read does not exist and when the name is taken.
\<close>

definition copy_group :: "container \<Rightarrow> string \<Rightarrow> string \<Rightarrow> blob \<Rightarrow> error + container" where
  "copy_group c read_id name b =
     (case b of
        Unreadable \<Rightarrow> Inl OSError
      | Data d \<Rightarrow>
          (case map_of c read_id of
             None \<Rightarrow> Inl KeyError
           | Some r \<Rightarrow>
               if name \<in> fst ` set (groups r) then Inl ValueError
               else Inr (AList.update read_id (r\<lparr>groups := groups r @ [(name, b)]\<rparr>) c)))"

section \<open>Copying one read\<close>

text \<open>
  Lines 62 to 67 of \<open>multi_to_adapter_multi\<close> and lines 104 to 109 of
  \<open>repackage_multi_to_multi\<close> are the same statements: fetch the read, look up its
  \<open>run_id\<close>, create the read in the destination, copy every group. The result is the
  exception that ended the body, if any, with the destination as the body left it: groups
  copied before a failure stay.
\<close>

fun copy_groups :: "(string \<times> blob) list \<Rightarrow> string \<Rightarrow> container \<Rightarrow> error option \<times> container" where
  "copy_groups [] read_id dest = (None, dest)"
| "copy_groups ((name, b) # gs) read_id dest =
     (case copy_group dest read_id name b of
        Inl e \<Rightarrow> (Some e, dest)
      | Inr dest' \<Rightarrow> copy_groups gs read_id dest')"

definition copy_read :: "container \<Rightarrow> string \<Rightarrow> container \<Rightarrow> error option \<times> container" where
  "copy_read multi_f5 read_id dest =
     (case get_read multi_f5 read_id of
        Inl e \<Rightarrow> (Some e, dest)
      | Inr read \<Rightarrow>
          (case run_id read of
             None \<Rightarrow> (Some KeyError, dest)
           | Some rid \<Rightarrow>
               (case create_read dest read_id rid of
                  Inl e \<Rightarrow> (Some e, dest)
                | Inr dest1 \<Rightarrow> copy_groups (groups read) read_id dest1)))"

section \<open>Paths and output names\<close>

text \<open>
  \<open>os.path.basename\<close> keeps what follows the last slash. \<open>os.path.join\<close> goes through
  its arguments from the left: a component that starts with a slash replaces what was
  joined so far, and a slash is put in between unless the path so far is empty or ends
  with one.
\<close>

definition basename :: "string \<Rightarrow> string" where
  "basename p = rev (takeWhile (\<lambda>c. c \<noteq> CHR ''/'') (rev p))"

definition join2 :: "string \<Rightarrow> string \<Rightarrow> string" where
  "join2 path b =
     (if b \<noteq> [] \<and> hd b = CHR ''/'' then b
      else if path = [] \<or> last path = CHR ''/'' then path @ b
      else path @ ''/'' @ b)"

definition path_join :: "string \<Rightarrow> string list \<Rightarrow> string" where
  "path_join a p = foldl join2 a p"

text \<open>The decimal digits of a number, as \<open>str.format\<close> writes the batch number.\<close>

fun str_nat :: "nat \<Rightarrow> string" where
  "str_nat n =
     (if n < 10 then [char_of (48 + n)]
      else str_nat (n div 10) @ [char_of (48 + n mod 10)])"

declare str_nat.simps [simp del]

definition batch_path :: "string \<Rightarrow> string \<Rightarrow> nat \<Rightarrow> string" where
  "batch_path output_folder filename_base n =
     path_join output_folder [filename_base @ ''_'' @ str_nat n @ ''.fast5'']"

definition bin_path :: "string \<Rightarrow> string \<Rightarrow> string \<Rightarrow> string" where
  "bin_path output_folder grp input_file =
     path_join output_folder [grp, basename input_file]"

section \<open>Batch mode: \<open>repackage_multi_to_multi\<close>\<close>

text \<open>
  The local variables of the function, on top of the world it acts on.
  \<open>output_multi_f5\<close> is the path on which the handle held by that variable was opened;
  it differs from \<open>output_file\<close> when the opening of the next output failed.
  The list of input files is what \<open>get_fast5_file_list\<close> returned; that function and the
  progress bar belong to \<open>conversion_utils\<close>, are not part of the sources at hand and
  do not touch containers. Directories are not modelled.
\<close>

record bstate = world +
  read_num :: nat
  batch_num :: nat
  output_file :: string
  output_multi_f5 :: string

text \<open>Lines 97 to 102: the rollover at the head of the loop body.\<close>

definition rollover :: "string \<Rightarrow> string \<Rightarrow> int \<Rightarrow> bstate \<Rightarrow> error option \<times> bstate" where
  "rollover output_folder filename_base batch_size s =
     (if int (read_num s) \<ge> batch_size \<and> batch_size > 0 then
        let s1 = close (output_multi_f5 s) s;
            s2 = s1\<lparr>batch_num := batch_num s1 + 1\<rparr>;
            s3 = s2\<lparr>output_file := batch_path output_folder filename_base (batch_num s2)\<rparr>
        in (case open_append (fs s3) (output_file s3) of
              Inl e \<Rightarrow> (Some e, s3)
            | Inr f \<Rightarrow>
                (None, (open_handle (output_file s3) s3)
                         \<lparr>fs := f, read_num := 0, output_multi_f5 := output_file s3\<rparr>))
      else (None, s))"

text \<open>
  Lines 103 to 113: the copy inside its \<open>try\<close>, whose handler logs the exception, and
  the increment of the counter, which follows in either case. The copy writes through the
  handle into the file the handle was opened on; an operation on a handle whose file is no
  container raises.
\<close>

definition write_read :: "container \<Rightarrow> string \<Rightarrow> bstate \<Rightarrow> bstate" where
  "write_read multi_f5 read_id s =
     (let s1 =
        (case fs s (output_multi_f5 s) of
           Some (Fast5 dest) \<Rightarrow>
             (case copy_read multi_f5 read_id dest of
                (None, dest') \<Rightarrow> s\<lparr>fs := (fs s)(output_multi_f5 s \<mapsto> Fast5 dest')\<rparr>
              | (Some e, dest') \<Rightarrow>
                  log_error (FailedWriteMultiRead e (output_file s))
                    (s\<lparr>fs := (fs s)(output_multi_f5 s \<mapsto> Fast5 dest')\<rparr>))
         | _ \<Rightarrow> log_error (FailedWriteMultiRead OSError (output_file s)) s)
      in s1\<lparr>read_num := read_num s1 + 1\<rparr>)"

text \<open>Lines 96 to 113: one step for each read id of the input container.\<close>

definition read_step ::
  "string \<Rightarrow> string \<Rightarrow> int \<Rightarrow> container \<Rightarrow> string \<Rightarrow> bstate \<Rightarrow> error option \<times> bstate" where
  "read_step output_folder filename_base batch_size multi_f5 read_id s =
     (case rollover output_folder filename_base batch_size s of
        (Some e, s1) \<Rightarrow> (Some e, s1)
      | (None, s1) \<Rightarrow> (None, write_read multi_f5 read_id s1))"

fun read_loop ::
  "string \<Rightarrow> string \<Rightarrow> int \<Rightarrow> container \<Rightarrow> string list \<Rightarrow> bstate \<Rightarrow> error option \<times> bstate" where
  "read_loop output_folder filename_base batch_size multi_f5 [] s = (None, s)"
| "read_loop output_folder filename_base batch_size multi_f5 (read_id # rest) s =
     (case read_step output_folder filename_base batch_size multi_f5 read_id s of
        (Some e, s1) \<Rightarrow> (Some e, s1)
      | (None, s1) \<Rightarrow> read_loop output_folder filename_base batch_size multi_f5 rest s1)"

text \<open>
  Lines 94 to 114: the loop over the input files. The \<open>with\<close> statement closes the input
  handle on the way out, also when an exception leaves the block.
\<close>

fun file_loop ::
  "string \<Rightarrow> string \<Rightarrow> int \<Rightarrow> string list \<Rightarrow> bstate \<Rightarrow> error option \<times> bstate" where
  "file_loop output_folder filename_base batch_size [] s = (None, s)"
| "file_loop output_folder filename_base batch_size (input_file # rest) s =
     (case open_read (fs s) input_file of
        Inl e \<Rightarrow> (Some e, s)
      | Inr multi_f5 \<Rightarrow>
          (case read_loop output_folder filename_base batch_size multi_f5
                  (get_read_ids multi_f5) (open_handle input_file s) of
             (Some e, s1) \<Rightarrow> (Some e, close input_file s1)
           | (None, s1) \<Rightarrow>
               file_loop output_folder filename_base batch_size rest (close input_file s1)))"

text \<open>
  Lines 88 to 121. The first output is opened before the \<open>try\<close>, so an exception there
  leaves the function at once. The bare \<open>except\<close> clause formats its message with the
  name \<open>e\<close>, which no enclosing \<open>as e\<close> binds at that point (Python 3 unbinds the name
  at the end of the inner handler): the handler itself raises, the \<open>finally\<close> clause
  closes the handle held by \<open>output_multi_f5\<close>, and the exception leaves the function.
  The result is the exception the call ends with, if any, and the state it ends in.
\<close>

definition repackage_multi_to_multi ::
  "string list \<Rightarrow> string \<Rightarrow> string \<Rightarrow> int \<Rightarrow> world \<Rightarrow> error option \<times> bstate" where
  "repackage_multi_to_multi file_list output_folder filename_base batch_size w =
     (let s0 = world.extend w
                 \<lparr>read_num = 0, batch_num = 0,
                  output_file = batch_path output_folder filename_base 0,
                  output_multi_f5 = []\<rparr>
      in case open_append (fs s0) (output_file s0) of
           Inl e \<Rightarrow> (Some e, s0)
         | Inr f \<Rightarrow>
             (case file_loop output_folder filename_base batch_size file_list
                     ((open_handle (output_file s0) s0)
                        \<lparr>fs := f, output_multi_f5 := output_file s0\<rparr>) of
                (None, s1) \<Rightarrow> (None, close (output_multi_f5 s1) s1)
              | (Some e, s1) \<Rightarrow> (Some UnboundLocalError, close (output_multi_f5 s1) s1)))"

section \<open>Binning mode: \<open>multi_to_adapter_multi\<close>\<close>

text \<open>
  Lines 46 to 52. \<open>binned\<close> is a dictionary from label to the read ids filed under it;
  it is kept as an association list in insertion order, the order in which the loop of
  line 53 visits the labels.
\<close>

fun bin_read_ids ::
  "(string \<rightharpoonup> string) \<Rightarrow> string list \<Rightarrow> (string \<times> string list) list \<Rightarrow> (string \<times> string list) list" where
  "bin_read_ids binning [] binned = binned"
| "bin_read_ids binning (read_id # rest) binned =
     (case binning read_id of
        None \<Rightarrow> bin_read_ids binning rest binned
      | Some grp \<Rightarrow>
          (case map_of binned grp of
             Some ids \<Rightarrow> bin_read_ids binning rest (AList.update grp (ids @ [read_id]) binned)
           | None \<Rightarrow> bin_read_ids binning rest (binned @ [(grp, [read_id])])))"

text \<open>
  Lines 60 to 70: one read of a label. The membership test reads the destination through
  its handle and stands outside the inner \<open>try\<close>, so an exception there leaves the loop
  over the reads; the copy stands inside, and its handler logs the exception.
\<close>

definition add_binned_read ::
  "container \<Rightarrow> string \<Rightarrow> string \<Rightarrow> world \<Rightarrow> error option \<times> world" where
  "add_binned_read multi_f5 out_file read_id w =
     (case fs w out_file of
        Some (Fast5 dest) \<Rightarrow>
          if read_id \<notin> set (get_read_ids dest) then
            (case copy_read multi_f5 read_id dest of
               (None, dest') \<Rightarrow> (None, w\<lparr>fs := (fs w)(out_file \<mapsto> Fast5 dest')\<rparr>)
             | (Some e, dest') \<Rightarrow>
                 (None, log_error (FailedAddSingleRead e read_id out_file)
                          (w\<lparr>fs := (fs w)(out_file \<mapsto> Fast5 dest')\<rparr>)))
          else (None, w)
      | _ \<Rightarrow> (Some OSError, w))"

text \<open>Lines 59 to 70: the reads of one label, in the order in which they were filed.\<close>

fun copy_binned ::
  "container \<Rightarrow> string \<Rightarrow> string list \<Rightarrow> world \<Rightarrow> error option \<times> world" where
  "copy_binned multi_f5 out_file [] w = (None, w)"
| "copy_binned multi_f5 out_file (read_id # rest) w =
     (case add_binned_read multi_f5 out_file read_id w of
        (Some e, w1) \<Rightarrow> (Some e, w1)
      | (None, w1) \<Rightarrow> copy_binned multi_f5 out_file rest w1)"

text \<open>
  Lines 54 to 72: one label. Whatever is raised between the \<open>try\<close> of line 54 and its
  handler is logged there; the \<open>with\<close> statement closes the destination first.
  The directory of the destination is made before the destination is opened; directories
  are not modelled.
\<close>

definition write_label ::
  "container \<Rightarrow> string \<Rightarrow> string \<Rightarrow> string \<Rightarrow> string list \<Rightarrow> world \<Rightarrow> world" where
  "write_label multi_f5 input_file output_folder grp read_ids w =
     (let out_file = bin_path output_folder grp input_file
      in case open_append (fs w) out_file of
           Inl e \<Rightarrow> log_error (FailedWriteMultiRead e out_file) w
         | Inr f \<Rightarrow>
             (case copy_binned multi_f5 out_file read_ids
                     (open_handle out_file (w\<lparr>fs := f\<rparr>)) of
                (None, w1) \<Rightarrow> close out_file w1
              | (Some e, w1) \<Rightarrow>
                  log_error (FailedWriteMultiRead e out_file) (close out_file w1)))"

fun write_labels ::
  "container \<Rightarrow> string \<Rightarrow> string \<Rightarrow> (string \<times> string list) list \<Rightarrow> world \<Rightarrow> world" where
  "write_labels multi_f5 input_file output_folder [] w = w"
| "write_labels multi_f5 input_file output_folder ((grp, read_ids) # rest) w =
     write_labels multi_f5 input_file output_folder rest
       (write_label multi_f5 input_file output_folder grp read_ids w)"

text \<open>
  Lines 42 to 77. The function returns \<open>results\<close> from its \<open>finally\<close> clause, so no
  exception leaves it.
\<close>

definition multi_to_adapter_multi ::
  "string \<Rightarrow> string \<Rightarrow> (string \<rightharpoonup> string) \<Rightarrow> world \<Rightarrow> string list \<times> world" where
  "multi_to_adapter_multi input_file output_folder binning w =
     (let results = [basename input_file]
      in case open_read (fs w) input_file of
           Inl e \<Rightarrow> (results, log_error (FailedCopyFrom e input_file) w)
         | Inr multi_f5 \<Rightarrow>
             (let binned = bin_read_ids binning (get_read_ids multi_f5) [];
                  w1 = write_labels multi_f5 input_file output_folder binned
                         (open_handle input_file w)
              in (results @ [basename input_file], close input_file w1)))"

text \<open>
  Lines 20 to 40. The pool is created first and refuses a number of workers below one.
  The work units are run here one after the other in the order of the file list; the
  interleaving of several workers is not modelled.
\<close>

definition batch_split_multi_to_adapter_multi ::
  "string list \<Rightarrow> string \<Rightarrow> int \<Rightarrow> (string \<rightharpoonup> string) \<Rightarrow> world \<Rightarrow> error option \<times> world" where
  "batch_split_multi_to_adapter_multi file_list output_folder threads binning w =
     (if threads < 1 then (Some ValueError, w)
      else (None, foldl (\<lambda>w' filename. snd (multi_to_adapter_multi filename output_folder binning w'))
                    w file_list))"

section \<open>The binning table: \<open>parse_csv\<close>\<close>

text \<open>
  \<open>str.strip\<close> without an argument removes the white space at both ends of the line;
  the characters below are those for which \<open>str.isspace\<close> holds among the first 256
  code points. \<open>str.split\<close> with a separator cuts at every occurrence of it and never
  returns an empty list.
\<close>

definition isspace :: "char \<Rightarrow> bool" where
  "isspace c = ((of_char c :: nat) \<in> {9, 10, 11, 12, 13, 28, 29, 30, 31, 32, 133, 160})"

definition strip :: "string \<Rightarrow> string" where
  "strip l = rev (dropWhile isspace (rev (dropWhile isspace l)))"

fun split :: "char \<Rightarrow> string \<Rightarrow> string list" where
  "split sep [] = [[]]"
| "split sep (c # cs) =
     (if c = sep then [] # split sep cs
      else (c # hd (split sep cs)) # tl (split sep cs))"

text \<open>
  Lines 126 to 128: the tuple assignment raises \<open>ValueError\<close> unless the split gives
  exactly two fields.
\<close>

fun parse_lines :: "string list \<Rightarrow> (string \<rightharpoonup> string) \<Rightarrow> error + (string \<rightharpoonup> string)" where
  "parse_lines [] binning = Inr binning"
| "parse_lines (line # rest) binning =
     (case split (CHR 0x09) (strip line) of
        [read_id, grp] \<Rightarrow> parse_lines rest (binning(read_id \<mapsto> grp))
      | _ \<Rightarrow> Inl ValueError)"

text \<open>
  Lines 123 to 129. A text file is the list of its lines as \<open>readlines\<close> returns them.
  Opening a path with no file raises; the bytes of a container do not decode as text.
\<close>

definition parse_csv :: "filesystem \<Rightarrow> string \<Rightarrow> error + (string \<rightharpoonup> string)" where
  "parse_csv f csv_fp =
     (case f csv_fp of
        None \<Rightarrow> Inl OSError
      | Some (Fast5 c) \<Rightarrow> Inl ValueError
      | Some (Other lines) \<Rightarrow> parse_lines lines Map.empty)"

section \<open>The entry point\<close>

text \<open>
  Lines 154 to 160, on the parsed arguments, in the order of the parser's options.
  \<open>input_files\<close> is the file list that \<open>get_fast5_file_list\<close> finds for
  \<open>input_path\<close> and \<open>recursive\<close>. An option that was not given is \<open>None\<close>, and the
  test of line 156 also fails for the empty string.
\<close>

definition main ::
  "string list \<Rightarrow> string \<Rightarrow> string option \<Rightarrow> string \<Rightarrow> int \<Rightarrow> int \<Rightarrow> world \<Rightarrow> error option \<times> world" where
  "main input_files save_path binning_csv_file filename_base batch_size threads w =
     (case binning_csv_file of
        Some (c # cs) \<Rightarrow>
          (case parse_csv (fs w) (c # cs) of
             Inl e \<Rightarrow> (Some e, w)
           | Inr binning \<Rightarrow>
               batch_split_multi_to_adapter_multi input_files save_path threads binning w)
      | _ \<Rightarrow>
          (case repackage_multi_to_multi input_files save_path filename_base batch_size w of
             (r, s) \<Rightarrow> (r, world.truncate s)))"

section \<open>Auxiliary notions\<close>

text \<open>
  What the writes of a run can do to the file system: a container keeps its reads, in
  their order, and may get more at the end; a file that is no container stays as it is.
\<close>

definition grows :: "filesystem \<Rightarrow> filesystem \<Rightarrow> bool" where
  "grows f f' = (\<forall>p. (\<forall>c. f p = Some (Fast5 c) \<longrightarrow> (\<exists>ex. f' p = Some (Fast5 (c @ ex)))) \<and>
                      (\<forall>t. f p = Some (Other t) \<longrightarrow> f' p = Some (Other t)))"

text \<open>The read ids that the container at a path holds; none where there is no container.\<close>

definition read_ids_at :: "filesystem \<Rightarrow> string \<Rightarrow> string set" where
  "read_ids_at f p = (case f p of Some (Fast5 c) \<Rightarrow> set (get_read_ids c) | _ \<Rightarrow> {})"


text \<open>
  The invariant of the batch loop when no copy fails, after \<open>k\<close> reads: the handle in use
  is the output of the current index; the outputs below that index hold \<open>batch_size\<close>
  reads each, the current one holds \<open>read_num\<close> reads, no output of a higher index exists,
  and every other path is as in the file system \<open>f0\<close> the run started from.
\<close>

definition batch_inv :: "string \<Rightarrow> string \<Rightarrow> int \<Rightarrow> filesystem \<Rightarrow> nat \<Rightarrow> bstate \<Rightarrow> bool" where
  "batch_inv output_folder filename_base batch_size f0 k s =
     (output_multi_f5 s = batch_path output_folder filename_base (batch_num s) \<and>
      (\<forall>p. (\<forall>j. p \<noteq> batch_path output_folder filename_base j) \<longrightarrow> fs s p = f0 p) \<and>
      (\<forall>j. j < batch_num s \<longrightarrow>
         (\<exists>c. fs s (batch_path output_folder filename_base j) = Some (Fast5 c) \<and>
              int (length c) = batch_size)) \<and>
      (\<exists>c. fs s (batch_path output_folder filename_base (batch_num s)) = Some (Fast5 c) \<and>
           length c = read_num s) \<and>
      (\<forall>j. batch_num s < j \<longrightarrow> fs s (batch_path output_folder filename_base j) = None) \<and>
      (if batch_size > 0
       then int k = int (batch_num s) * batch_size + int (read_num s) \<and> int (read_num s) \<le> batch_size
       else batch_num s = 0 \<and> read_num s = k) \<and>
      (0 < k \<longrightarrow> 0 < read_num s))"

text \<open>
  The destination of a label as the specification writes it: the output root, the label
  and the base name of the input file, with a slash between them.
\<close>

definition spec_bin_path :: "string \<Rightarrow> string \<Rightarrow> string \<Rightarrow> string" where
  "spec_bin_path output_folder grp input_file =
     output_folder @ ''/'' @ grp @ ''/'' @ basename input_file"

section \<open>Basic facts\<close>

lemma log_error_sel [simp]:
  "fs (log_error m w) = fs w"
  "log (log_error m w) = log w @ [m]"
  "handles (log_error m w) = handles w"
  by (simp_all add: log_error_def)

lemma log_error_bsel [simp]:
  "read_num (log_error m s) = read_num s"
  "batch_num (log_error m s) = batch_num s"
  "output_file (log_error m s) = output_file s"
  "output_multi_f5 (log_error m s) = output_multi_f5 s"
  by (simp_all add: log_error_def)

lemma close_sel [simp]:
  "fs (close p w) = fs w"
  "log (close p w) = log w"
  "handles (close p w) = remove1 p (handles w)"
  by (simp_all add: close_def)

lemma close_bsel [simp]:
  "read_num (close p s) = read_num s"
  "batch_num (close p s) = batch_num s"
  "output_file (close p s) = output_file s"
  "output_multi_f5 (close p s) = output_multi_f5 s"
  by (simp_all add: close_def)

lemma open_handle_sel [simp]:
  "fs (open_handle p w) = fs w"
  "log (open_handle p w) = log w"
  "handles (open_handle p w) = p # handles w"
  by (simp_all add: open_handle_def)

lemma open_handle_bsel [simp]:
  "read_num (open_handle p s) = read_num s"
  "batch_num (open_handle p s) = batch_num s"
  "output_file (open_handle p s) = output_file s"
  "output_multi_f5 (open_handle p s) = output_multi_f5 s"
  by (simp_all add: open_handle_def)

section \<open>The copy of one read\<close>

lemma update_append_last:
  "k \<notin> fst ` set c \<Longrightarrow> AList.update k v (c @ [(k, u)]) = c @ [(k, v)]"
  by (induction c) auto

lemma map_of_append_last:
  "k \<notin> fst ` set c \<Longrightarrow> map_of (c @ [(k, v)]) k = Some v"
  by (induction c) auto

lemma copy_groups_none:
  "copy_groups gs read_id (c @ [(read_id, r)]) = (None, d) \<Longrightarrow> read_id \<notin> fst ` set c \<Longrightarrow>
   d = c @ [(read_id, r\<lparr>groups := groups r @ gs\<rparr>)]"
proof (induction gs arbitrary: r)
  case Nil
  then show ?case by simp
next
  case (Cons g gs)
  obtain name b where g: "g = (name, b)" by (cases g)
  from Cons.prems(2) have m: "map_of (c @ [(read_id, r)]) read_id = Some r"
    by (rule map_of_append_last)
  from Cons.prems(1) g m obtain d1 where
    d1: "copy_group (c @ [(read_id, r)]) read_id name b = Inr d1" and
    rest: "copy_groups gs read_id d1 = (None, d)"
    by (auto split: sum.splits)
  from d1 m Cons.prems(2) have "d1 = c @ [(read_id, r\<lparr>groups := groups r @ [(name, b)]\<rparr>)]"
    by (auto simp: copy_group_def update_append_last split: blob.splits if_splits)
  with rest Cons.IH[of "r\<lparr>groups := groups r @ [(name, b)]\<rparr>"] Cons.prems(2) g
  show ?case by simp
qed

text \<open>A copy that ends without an exception has appended the source read as it is.\<close>

lemma copy_read_none:
  assumes "copy_read multi_f5 read_id dest = (None, dest')"
  shows "\<exists>r. map_of multi_f5 read_id = Some r \<and> read_id \<notin> set (get_read_ids dest) \<and>
             dest' = dest @ [(read_id, r)]"
proof -
  from assms obtain r x where r: "map_of multi_f5 read_id = Some r" and x: "run_id r = Some x"
    and fresh: "read_id \<notin> set (get_read_ids dest)"
    and cg: "copy_groups (groups r) read_id (dest @ [(read_id, \<lparr>run_id = Some x, groups = []\<rparr>)]) = (None, dest')"
    by (auto simp: copy_read_def get_read_def create_read_def split: option.splits sum.splits if_splits)
  from fresh have "read_id \<notin> fst ` set dest" by (simp add: get_read_ids_def)
  from copy_groups_none[OF cg this] x have "dest' = dest @ [(read_id, r)]" by simp
  with r fresh show ?thesis by blast
qed

text \<open>
  Claim C6. When the copy of a read from a source container into a destination container
  succeeds, that is, when the statements of lines 62 to 67 (binning mode) or 104 to 109
  (batch mode) end without an exception, the destination holds a read of that id whose
  \<open>run_id\<close> is the \<open>run_id\<close> of the source read and whose groups are the groups of the
  source read, with the same names and the same contents.
\<close>

theorem copy_read_roundtrip:
  assumes "copy_read multi_f5 read_id dest = (None, dest')"
  shows "\<exists>src_read dest_read.
           get_read multi_f5 read_id = Inr src_read \<and>
           get_read dest' read_id = Inr dest_read \<and>
           run_id dest_read = run_id src_read \<and>
           groups dest_read = groups src_read"
proof -
  from copy_read_none[OF assms] obtain r where
    r: "map_of multi_f5 read_id = Some r" and
    fresh: "read_id \<notin> set (get_read_ids dest)" and
    d: "dest' = dest @ [(read_id, r)]"
    by blast
  from fresh have "read_id \<notin> fst ` set dest" by (simp add: get_read_ids_def)
  then have "map_of dest' read_id = Some r" unfolding d by (rule map_of_append_last)
  with r show ?thesis by (simp add: get_read_def)
qed

theorem copy_read_roundtrip_witness:
  "copy_read
     [(''r1'', \<lparr>run_id = Some ''run'', groups = [(''Raw'', Data ''abc''), (''Analyses'', Data ''x'')]\<rparr>)]
     ''r1'' [(''r0'', \<lparr>run_id = Some ''run'', groups = []\<rparr>)]
   = (None, [(''r0'', \<lparr>run_id = Some ''run'', groups = []\<rparr>),
             (''r1'', \<lparr>run_id = Some ''run'', groups = [(''Raw'', Data ''abc''), (''Analyses'', Data ''x'')]\<rparr>)])
   \<and> get_read [(''r0'', \<lparr>run_id = Some ''run'', groups = []\<rparr>),
             (''r1'', \<lparr>run_id = Some ''run'', groups = [(''Raw'', Data ''abc''), (''Analyses'', Data ''x'')]\<rparr>)] ''r1''
     = Inr \<lparr>run_id = Some ''run'', groups = [(''Raw'', Data ''abc''), (''Analyses'', Data ''x'')]\<rparr>"
proof -
  have h: "copy_read
     [(''r1'', \<lparr>run_id = Some ''run'', groups = [(''Raw'', Data ''abc''), (''Analyses'', Data ''x'')]\<rparr>)]
     ''r1'' [(''r0'', \<lparr>run_id = Some ''run'', groups = []\<rparr>)]
   = (None, [(''r0'', \<lparr>run_id = Some ''run'', groups = []\<rparr>),
             (''r1'', \<lparr>run_id = Some ''run'', groups = [(''Raw'', Data ''abc''), (''Analyses'', Data ''x'')]\<rparr>)])"
    by (simp add: copy_read_def get_read_def create_read_def get_read_ids_def copy_group_def)
  from copy_read_roundtrip[OF h] show ?thesis using h by (auto simp: get_read_def)
qed

section \<open>Batch mode: failures\<close>

text \<open>
  Claim C1. A batch-mode run in which an input container fails to open should log the
  failure, go on with the next input file and end normally. The code does not: the
  \<open>try\<close> of line 93 encloses the whole loop over the files, so the failure ends the
  loop, and its handler raises in turn. With three input files of which the second is no
  container, the run ends with \<open>UnboundLocalError\<close>, nothing is logged, and the only
  output holds the read of the first file; the read of the third file is in no output.
\<close>

theorem batch_input_failure_aborts_run:
  "fst (repackage_multi_to_multi [''in/a.fast5'', ''in/b.fast5'', ''in/c.fast5''] ''out'' ''batch'' 4000
     \<lparr>fs = [''in/a.fast5'' \<mapsto> Fast5 [(''r1'', \<lparr>run_id = Some ''run'', groups = [(''Raw'', Data ''s1'')]\<rparr>)],
             ''in/b.fast5'' \<mapsto> Other [''not a container''],
             ''in/c.fast5'' \<mapsto> Fast5 [(''r2'', \<lparr>run_id = Some ''run'', groups = [(''Raw'', Data ''s2'')]\<rparr>)]],
      log = [], handles = []\<rparr>) = Some UnboundLocalError
   \<and> log (snd (repackage_multi_to_multi [''in/a.fast5'', ''in/b.fast5'', ''in/c.fast5''] ''out'' ''batch'' 4000
     \<lparr>fs = [''in/a.fast5'' \<mapsto> Fast5 [(''r1'', \<lparr>run_id = Some ''run'', groups = [(''Raw'', Data ''s1'')]\<rparr>)],
             ''in/b.fast5'' \<mapsto> Other [''not a container''],
             ''in/c.fast5'' \<mapsto> Fast5 [(''r2'', \<lparr>run_id = Some ''run'', groups = [(''Raw'', Data ''s2'')]\<rparr>)]],
      log = [], handles = []\<rparr>)) = []
   \<and> fs (snd (repackage_multi_to_multi [''in/a.fast5'', ''in/b.fast5'', ''in/c.fast5''] ''out'' ''batch'' 4000
     \<lparr>fs = [''in/a.fast5'' \<mapsto> Fast5 [(''r1'', \<lparr>run_id = Some ''run'', groups = [(''Raw'', Data ''s1'')]\<rparr>)],
             ''in/b.fast5'' \<mapsto> Other [''not a container''],
             ''in/c.fast5'' \<mapsto> Fast5 [(''r2'', \<lparr>run_id = Some ''run'', groups = [(''Raw'', Data ''s2'')]\<rparr>)]],
      log = [], handles = []\<rparr>)) ''out/batch_0.fast5''
     = Some (Fast5 [(''r1'', \<lparr>run_id = Some ''run'', groups = [(''Raw'', Data ''s1'')]\<rparr>)])
   \<and> fs (snd (repackage_multi_to_multi [''in/a.fast5'', ''in/b.fast5'', ''in/c.fast5''] ''out'' ''batch'' 4000
     \<lparr>fs = [''in/a.fast5'' \<mapsto> Fast5 [(''r1'', \<lparr>run_id = Some ''run'', groups = [(''Raw'', Data ''s1'')]\<rparr>)],
             ''in/b.fast5'' \<mapsto> Other [''not a container''],
             ''in/c.fast5'' \<mapsto> Fast5 [(''r2'', \<lparr>run_id = Some ''run'', groups = [(''Raw'', Data ''s2'')]\<rparr>)]],
      log = [], handles = []\<rparr>)) ''out/batch_1.fast5'' = None"
  by code_simp

text \<open>
  Claim C2. A per-read copy whose read id is already in the destination should succeed
  without touching the destination, the case being found by a membership test before the
  copy. Binning mode has the test (line 60); batch mode has none: it calls
  \<open>create_read\<close> at once, the call raises, and the handler of line 110 logs a failure.
  Here the output of an earlier run already holds the read \<open>r1\<close> of the input file.
\<close>

theorem batch_copy_of_present_read_fails:
  "fst (repackage_multi_to_multi [''in/a.fast5''] ''out'' ''batch'' 4000
     \<lparr>fs = [''in/a.fast5'' \<mapsto> Fast5 [(''r1'', \<lparr>run_id = Some ''run'', groups = [(''Raw'', Data ''s1'')]\<rparr>)],
             ''out/batch_0.fast5'' \<mapsto> Fast5 [(''r1'', \<lparr>run_id = Some ''run'', groups = [(''Raw'', Data ''s1'')]\<rparr>)]],
      log = [], handles = []\<rparr>) = None
   \<and> log (snd (repackage_multi_to_multi [''in/a.fast5''] ''out'' ''batch'' 4000
     \<lparr>fs = [''in/a.fast5'' \<mapsto> Fast5 [(''r1'', \<lparr>run_id = Some ''run'', groups = [(''Raw'', Data ''s1'')]\<rparr>)],
             ''out/batch_0.fast5'' \<mapsto> Fast5 [(''r1'', \<lparr>run_id = Some ''run'', groups = [(''Raw'', Data ''s1'')]\<rparr>)]],
      log = [], handles = []\<rparr>)) = [FailedWriteMultiRead ValueError ''out/batch_0.fast5'']
   \<and> fs (snd (repackage_multi_to_multi [''in/a.fast5''] ''out'' ''batch'' 4000
     \<lparr>fs = [''in/a.fast5'' \<mapsto> Fast5 [(''r1'', \<lparr>run_id = Some ''run'', groups = [(''Raw'', Data ''s1'')]\<rparr>)],
             ''out/batch_0.fast5'' \<mapsto> Fast5 [(''r1'', \<lparr>run_id = Some ''run'', groups = [(''Raw'', Data ''s1'')]\<rparr>)]],
      log = [], handles = []\<rparr>)) ''out/batch_0.fast5''
     = Some (Fast5 [(''r1'', \<lparr>run_id = Some ''run'', groups = [(''Raw'', Data ''s1'')]\<rparr>)])"
  by code_simp

text \<open>The test of binning mode: a read that the destination holds is passed over.\<close>

lemma binned_copy_of_present_read_skipped:
  assumes "fs w out_file = Some (Fast5 dest)" and "read_id \<in> set (get_read_ids dest)"
  shows "add_binned_read multi_f5 out_file read_id w = (None, w)"
  using assms by (simp add: add_binned_read_def)

section \<open>Batch mode: the output handle\<close>

lemma rollover_handles:
  assumes "rollover output_folder filename_base batch_size s = (r, s')"
    and "mset (handles s) = add_mset (output_multi_f5 s) M"
  shows "mset (handles s') = add_mset (output_multi_f5 s') M \<or>
         (r \<noteq> None \<and> mset (handles s') = M)"
  using assms
  by (auto simp: rollover_def Let_def split: if_splits sum.splits)

lemma write_read_handles [simp]:
  "handles (write_read multi_f5 read_id s) = handles s"
  "output_multi_f5 (write_read multi_f5 read_id s) = output_multi_f5 s"
  by (auto simp: write_read_def Let_def split: option.splits disk_file.splits prod.splits)

lemma read_step_handles:
  assumes "read_step output_folder filename_base batch_size multi_f5 read_id s = (r, s')"
    and "mset (handles s) = add_mset (output_multi_f5 s) M"
  shows "mset (handles s') = add_mset (output_multi_f5 s') M \<or>
         (r \<noteq> None \<and> mset (handles s') = M)"
proof -
  obtain r1 s1 where ro: "rollover output_folder filename_base batch_size s = (r1, s1)"
    by (cases "rollover output_folder filename_base batch_size s")
  from rollover_handles[OF ro assms(2)] ro assms(1) show ?thesis
    by (cases r1) (auto simp: read_step_def)
qed

lemma read_loop_handles:
  assumes "read_loop output_folder filename_base batch_size multi_f5 ids s = (r, s')"
    and "mset (handles s) = add_mset (output_multi_f5 s) M"
  shows "mset (handles s') = add_mset (output_multi_f5 s') M \<or>
         (r \<noteq> None \<and> mset (handles s') = M)"
  using assms
proof (induction ids arbitrary: s)
  case Nil
  then show ?case by simp
next
  case (Cons read_id ids)
  obtain r1 s1 where st: "read_step output_folder filename_base batch_size multi_f5 read_id s = (r1, s1)"
    by (cases "read_step output_folder filename_base batch_size multi_f5 read_id s")
  show ?case
  proof (cases r1)
    case None
    with read_step_handles[OF st Cons.prems(2)]
    have "mset (handles s1) = add_mset (output_multi_f5 s1) M" by simp
    moreover from Cons.prems(1) st None
    have "read_loop output_folder filename_base batch_size multi_f5 ids s1 = (r, s')" by simp
    ultimately show ?thesis by (rule Cons.IH[rotated])
  next
    case (Some e)
    with Cons.prems(1) st have "r = Some e" "s' = s1" by simp_all
    with read_step_handles[OF st Cons.prems(2)] Some show ?thesis by simp
  qed
qed

lemma file_loop_handles:
  assumes "file_loop output_folder filename_base batch_size files s = (r, s')"
    and "mset (handles s) = add_mset (output_multi_f5 s) M"
  shows "mset (handles s') = add_mset (output_multi_f5 s') M \<or>
         (r \<noteq> None \<and> mset (handles s') = M)"
  using assms
proof (induction files arbitrary: s)
  case Nil
  then show ?case by simp
next
  case (Cons input_file files)
  show ?case
  proof (cases "open_read (fs s) input_file")
    case (Inl e)
    with Cons.prems show ?thesis by simp
  next
    case (Inr multi_f5)
    obtain r1 s1 where rl: "read_loop output_folder filename_base batch_size multi_f5
        (get_read_ids multi_f5) (open_handle input_file s) = (r1, s1)"
      by (cases "read_loop output_folder filename_base batch_size multi_f5
        (get_read_ids multi_f5) (open_handle input_file s)")
    from Cons.prems(2)
    have "mset (handles (open_handle input_file s))
          = add_mset (output_multi_f5 (open_handle input_file s)) (add_mset input_file M)"
      by simp
    from read_loop_handles[OF rl this]
    have after: "mset (handles (close input_file s1)) = add_mset (output_multi_f5 (close input_file s1)) M \<or>
          (r1 \<noteq> None \<and> mset (handles (close input_file s1)) = M)"
      by auto
    show ?thesis
    proof (cases r1)
      case None
      with after have "mset (handles (close input_file s1)) = add_mset (output_multi_f5 (close input_file s1)) M"
        by simp
      moreover from Cons.prems(1) Inr rl None
      have "file_loop output_folder filename_base batch_size files (close input_file s1) = (r, s')"
        by simp
      ultimately show ?thesis by (rule Cons.IH[rotated])
    next
      case (Some e)
      with Cons.prems(1) Inr rl have "r = Some e" "s' = close input_file s1" by simp_all
      with after Some show ?thesis by simp
    qed
  qed
qed

text \<open>
  Claim C8. Whatever way a batch-mode run ends, with or without an exception, it leaves
  no output handle open: every handle that is open after the run was open before it.
\<close>

theorem output_handle_closed:
  "mset (handles (snd (repackage_multi_to_multi file_list output_folder filename_base batch_size w)))
     \<subseteq># mset (handles w)"
proof (cases "open_append (fs w) (batch_path output_folder filename_base 0)")
  case (Inl e)
  then show ?thesis
    by (simp add: repackage_multi_to_multi_def Let_def world.extend_def)
next
  case (Inr f)
  define s0 where "s0 = (open_handle (batch_path output_folder filename_base 0)
      (world.extend w \<lparr>read_num = 0, batch_num = 0,
          output_file = batch_path output_folder filename_base 0, output_multi_f5 = []\<rparr>))
      \<lparr>fs := f, output_multi_f5 := batch_path output_folder filename_base 0\<rparr>"
  obtain r s1 where fl: "file_loop output_folder filename_base batch_size file_list s0 = (r, s1)"
    by (cases "file_loop output_folder filename_base batch_size file_list s0")
  have "mset (handles s0) = add_mset (output_multi_f5 s0) (mset (handles w))"
    by (simp add: s0_def world.extend_def)
  from file_loop_handles[OF fl this]
  have "mset (handles (close (output_multi_f5 s1) s1)) \<subseteq># mset (handles w)"
    by auto
  moreover have "snd (repackage_multi_to_multi file_list output_folder filename_base batch_size w)
      = close (output_multi_f5 s1) s1"
    using Inr fl by (cases r) (simp_all add: repackage_multi_to_multi_def Let_def world.extend_def s0_def)
  ultimately show ?thesis by simp
qed


theorem output_handle_closed_witness:
  "handles (snd (repackage_multi_to_multi [''in/a.fast5'', ''in/b.fast5''] ''out'' ''batch'' 1
     \<lparr>fs = [''in/a.fast5'' \<mapsto> Fast5 [(''r1'', \<lparr>run_id = Some ''run'', groups = []\<rparr>),
                                       (''r2'', \<lparr>run_id = Some ''run'', groups = []\<rparr>)]],
      log = [], handles = []\<rparr>)) = []"
  using output_handle_closed [of "[''in/a.fast5'', ''in/b.fast5'']" "''out''" "''batch''" 1
     "\<lparr>fs = [''in/a.fast5'' \<mapsto> Fast5 [(''r1'', \<lparr>run_id = Some ''run'', groups = []\<rparr>),
                                       (''r2'', \<lparr>run_id = Some ''run'', groups = []\<rparr>)]],
      log = [], handles = []\<rparr>"]
  by simp


section \<open>Batch mode: the cursor\<close>

lemma write_read_cursor [simp]:
  "read_num (write_read multi_f5 read_id s) = read_num s + 1"
  "batch_num (write_read multi_f5 read_id s) = batch_num s"
  by (auto simp: write_read_def Let_def split: option.splits disk_file.splits prod.splits)

lemma read_step_cursor:
  assumes "read_step output_folder filename_base batch_size multi_f5 read_id s = (r, s')"
  shows "batch_num s \<le> batch_num s' \<and>
         (batch_num s < batch_num s' \<or> (batch_num s = batch_num s' \<and> read_num s < read_num s')) \<and>
         (read_num s' \<le> read_num s \<longrightarrow> batch_num s' = batch_num s + 1)"
  using assms
  by (auto simp: read_step_def rollover_def Let_def split: if_splits sum.splits prod.splits option.splits)

lemma read_loop_cursor:
  "read_loop output_folder filename_base batch_size multi_f5 ids s = (r, s') \<Longrightarrow>
   batch_num s < batch_num s' \<or> (batch_num s = batch_num s' \<and> read_num s \<le> read_num s')"
proof (induction ids arbitrary: s)
  case Nil
  then show ?case by simp
next
  case (Cons read_id ids)
  obtain r1 s1 where st: "read_step output_folder filename_base batch_size multi_f5 read_id s = (r1, s1)"
    by (cases "read_step output_folder filename_base batch_size multi_f5 read_id s")
  note m = read_step_cursor[OF st]
  show ?case
  proof (cases r1)
    case None
    with Cons.prems st have "read_loop output_folder filename_base batch_size multi_f5 ids s1 = (r, s')"
      by simp
    from Cons.IH[OF this] m show ?thesis by arith
  next
    case (Some e)
    with Cons.prems st have "s' = s1" by simp
    with m show ?thesis by arith
  qed
qed


lemma file_loop_cursor:
  "file_loop output_folder filename_base batch_size files s = (r, s') \<Longrightarrow>
   batch_num s < batch_num s' \<or> (batch_num s = batch_num s' \<and> read_num s \<le> read_num s')"
proof (induction files arbitrary: s)
  case Nil
  then show ?case by simp
next
  case (Cons input_file files)
  show ?case
  proof (cases "open_read (fs s) input_file")
    case (Inl e)
    with Cons.prems show ?thesis by simp
  next
    case (Inr multi_f5)
    obtain r1 s1 where rl: "read_loop output_folder filename_base batch_size multi_f5
        (get_read_ids multi_f5) (open_handle input_file s) = (r1, s1)"
      by (cases "read_loop output_folder filename_base batch_size multi_f5
        (get_read_ids multi_f5) (open_handle input_file s)")
    from read_loop_cursor[OF rl]
    have m: "batch_num s < batch_num (close input_file s1) \<or>
             (batch_num s = batch_num (close input_file s1) \<and> read_num s \<le> read_num (close input_file s1))"
      by simp
    show ?thesis
    proof (cases r1)
      case None
      with Cons.prems Inr rl
      have "file_loop output_folder filename_base batch_size files (close input_file s1) = (r, s')"
        by simp
      from Cons.IH[OF this] m show ?thesis by arith
    next
      case (Some e)
      with Cons.prems Inr rl have "s' = close input_file s1" by simp
      with m show ?thesis by arith
    qed
  qed
qed

lemma repackage_cursor:
  assumes "repackage_multi_to_multi file_list output_folder filename_base batch_size w = (r, s')"
  shows "(batch_num s' = 0 \<and> read_num s' = 0) \<or>
         (\<exists>s0 r1 s1. batch_num s0 = 0 \<and> read_num s0 = 0 \<and>
            file_loop output_folder filename_base batch_size file_list s0 = (r1, s1) \<and>
            batch_num s' = batch_num s1 \<and> read_num s' = read_num s1)"
proof (cases "open_append (fs w) (batch_path output_folder filename_base 0)")
  case (Inl e)
  with assms show ?thesis
    by (auto simp: repackage_multi_to_multi_def Let_def world.extend_def)
next
  case (Inr f)
  define s0 where "s0 = (open_handle (batch_path output_folder filename_base 0)
      (world.extend w \<lparr>read_num = 0, batch_num = 0,
          output_file = batch_path output_folder filename_base 0, output_multi_f5 = []\<rparr>))
      \<lparr>fs := f, output_multi_f5 := batch_path output_folder filename_base 0\<rparr>"
  obtain r1 s1 where fl: "file_loop output_folder filename_base batch_size file_list s0 = (r1, s1)"
    by (cases "file_loop output_folder filename_base batch_size file_list s0")
  have z: "batch_num s0 = 0" "read_num s0 = 0" by (simp_all add: s0_def world.extend_def)
  have "s' = close (output_multi_f5 s1) s1"
    using Inr fl assms
    by (cases r1) (simp_all add: repackage_multi_to_multi_def Let_def world.extend_def s0_def)
  then have "batch_num s' = batch_num s1 \<and> read_num s' = read_num s1" by simp
  with z fl show ?thesis by blast
qed

text \<open>
  Claim C9. The cursor of a batch-mode run is the pair of \<open>batch_num\<close> and \<open>read_num\<close>.
  In every per-read step, whether it ends normally or with an exception, the output index
  does not decrease, the pair increases strictly in the lexicographic order, and the
  counter of reads fails to grow only in a step that increments the output index (the
  step of a rollover, which sets the counter back to zero before the read is counted).
  Over any stretch of a run, that is, over the reads of an input file and over the input
  files, from whatever state the stretch begins in, the output index does not decrease,
  the pair does not decrease in the lexicographic order, and the counter is lower at the
  end than at the beginning only if the output index has grown. The run itself begins
  with the cursor at zero and does nothing to the cursor outside the loop over the files.
\<close>

theorem batch_cursor_monotone:
  "(read_step output_folder filename_base batch_size multi_f5 read_id s = (r, s') \<longrightarrow>
      batch_num s \<le> batch_num s' \<and>
      (batch_num s < batch_num s' \<or> (batch_num s = batch_num s' \<and> read_num s < read_num s')) \<and>
      (read_num s' \<le> read_num s \<longrightarrow> batch_num s' = batch_num s + 1)) \<and>
   (read_loop output_folder filename_base batch_size multi_f5 ids t = (q, t') \<longrightarrow>
      batch_num t \<le> batch_num t' \<and>
      (batch_num t < batch_num t' \<or> (batch_num t = batch_num t' \<and> read_num t \<le> read_num t')) \<and>
      (read_num t' < read_num t \<longrightarrow> batch_num t < batch_num t')) \<and>
   (file_loop output_folder filename_base batch_size file_list u = (p, u') \<longrightarrow>
      batch_num u \<le> batch_num u' \<and>
      (batch_num u < batch_num u' \<or> (batch_num u = batch_num u' \<and> read_num u \<le> read_num u')) \<and>
      (read_num u' < read_num u \<longrightarrow> batch_num u < batch_num u')) \<and>
   (repackage_multi_to_multi file_list output_folder filename_base batch_size w = (o', v) \<longrightarrow>
      (batch_num v = 0 \<and> read_num v = 0) \<or>
      (\<exists>s0 r1 s1. batch_num s0 = 0 \<and> read_num s0 = 0 \<and>
         file_loop output_folder filename_base batch_size file_list s0 = (r1, s1) \<and>
         batch_num v = batch_num s1 \<and> read_num v = read_num s1))"
proof (intro conjI impI)
  assume a: "read_step output_folder filename_base batch_size multi_f5 read_id s = (r, s')"
  note m = read_step_cursor[OF a]
  from m show "batch_num s \<le> batch_num s'" by blast
  from m show "batch_num s < batch_num s' \<or> (batch_num s = batch_num s' \<and> read_num s < read_num s')"
    by blast
  assume "read_num s' \<le> read_num s"
  with m show "batch_num s' = batch_num s + 1" by blast
next
  assume a: "read_loop output_folder filename_base batch_size multi_f5 ids t = (q, t')"
  note m = read_loop_cursor[OF a]
  from m show "batch_num t \<le> batch_num t'" by arith
  from m show "batch_num t < batch_num t' \<or> (batch_num t = batch_num t' \<and> read_num t \<le> read_num t')" .
  assume "read_num t' < read_num t"
  with m show "batch_num t < batch_num t'" by arith
next
  assume a: "file_loop output_folder filename_base batch_size file_list u = (p, u')"
  note m = file_loop_cursor[OF a]
  from m show "batch_num u \<le> batch_num u'" by arith
  from m show "batch_num u < batch_num u' \<or> (batch_num u = batch_num u' \<and> read_num u \<le> read_num u')" .
  assume "read_num u' < read_num u"
  with m show "batch_num u < batch_num u'" by arith
next
  assume "repackage_multi_to_multi file_list output_folder filename_base batch_size w = (o', v)"
  then show "(batch_num v = 0 \<and> read_num v = 0) \<or>
      (\<exists>s0 r1 s1. batch_num s0 = 0 \<and> read_num s0 = 0 \<and>
         file_loop output_folder filename_base batch_size file_list s0 = (r1, s1) \<and>
         batch_num v = batch_num s1 \<and> read_num v = read_num s1)"
    by (rule repackage_cursor)
qed


theorem batch_cursor_monotone_witness:
  "batch_num (snd (read_step ''out'' ''batch'' 2
        [(''r3'', \<lparr>run_id = Some ''run'', groups = []\<rparr>)] ''r3''
        \<lparr>fs = [''in/a.fast5'' \<mapsto> Fast5 [(''r3'', \<lparr>run_id = Some ''run'', groups = []\<rparr>)],
               ''out/batch_0.fast5'' \<mapsto> Fast5 [(''r1'', \<lparr>run_id = Some ''run'', groups = []\<rparr>),
                                                (''r2'', \<lparr>run_id = Some ''run'', groups = []\<rparr>)]],
         log = [], handles = [''out/batch_0.fast5''],
         read_num = 2, batch_num = 0, output_file = ''out/batch_0.fast5'',
         output_multi_f5 = ''out/batch_0.fast5''\<rparr>)) = 1
   \<and> read_num (snd (read_step ''out'' ''batch'' 2
        [(''r3'', \<lparr>run_id = Some ''run'', groups = []\<rparr>)] ''r3''
        \<lparr>fs = [''in/a.fast5'' \<mapsto> Fast5 [(''r3'', \<lparr>run_id = Some ''run'', groups = []\<rparr>)],
               ''out/batch_0.fast5'' \<mapsto> Fast5 [(''r1'', \<lparr>run_id = Some ''run'', groups = []\<rparr>),
                                                (''r2'', \<lparr>run_id = Some ''run'', groups = []\<rparr>)]],
         log = [], handles = [''out/batch_0.fast5''],
         read_num = 2, batch_num = 0, output_file = ''out/batch_0.fast5'',
         output_multi_f5 = ''out/batch_0.fast5''\<rparr>)) = 1
   \<and> read_num (snd (file_loop ''out'' ''batch'' 2 [''in/a.fast5'']
        \<lparr>fs = [''in/a.fast5'' \<mapsto> Fast5 [(''r3'', \<lparr>run_id = Some ''run'', groups = []\<rparr>)],
               ''out/batch_0.fast5'' \<mapsto> Fast5 [(''r1'', \<lparr>run_id = Some ''run'', groups = []\<rparr>),
                                                (''r2'', \<lparr>run_id = Some ''run'', groups = []\<rparr>)]],
         log = [], handles = [''out/batch_0.fast5''],
         read_num = 2, batch_num = 0, output_file = ''out/batch_0.fast5'',
         output_multi_f5 = ''out/batch_0.fast5''\<rparr>)) = 1
   \<and> 0 < batch_num (snd (file_loop ''out'' ''batch'' 2 [''in/a.fast5'']
        \<lparr>fs = [''in/a.fast5'' \<mapsto> Fast5 [(''r3'', \<lparr>run_id = Some ''run'', groups = []\<rparr>)],
               ''out/batch_0.fast5'' \<mapsto> Fast5 [(''r1'', \<lparr>run_id = Some ''run'', groups = []\<rparr>),
                                                (''r2'', \<lparr>run_id = Some ''run'', groups = []\<rparr>)]],
         log = [], handles = [''out/batch_0.fast5''],
         read_num = 2, batch_num = 0, output_file = ''out/batch_0.fast5'',
         output_multi_f5 = ''out/batch_0.fast5''\<rparr>))"
proof -
  let ?s = "\<lparr>fs = [''in/a.fast5'' \<mapsto> Fast5 [(''r3'', \<lparr>run_id = Some ''run'', groups = []\<rparr>)],
               ''out/batch_0.fast5'' \<mapsto> Fast5 [(''r1'', \<lparr>run_id = Some ''run'', groups = []\<rparr>),
                                                (''r2'', \<lparr>run_id = Some ''run'', groups = []\<rparr>)]],
         log = [], handles = [''out/batch_0.fast5''],
         read_num = 2, batch_num = 0, output_file = ''out/batch_0.fast5'',
         output_multi_f5 = ''out/batch_0.fast5''\<rparr>"
  let ?t = "read_step ''out'' ''batch'' 2 [(''r3'', \<lparr>run_id = Some ''run'', groups = []\<rparr>)] ''r3'' ?s"
  let ?l = "file_loop ''out'' ''batch'' 2 [''in/a.fast5''] ?s"
  have rn: "read_num (snd ?t) = 1" by code_simp
  have ln: "read_num (snd ?l) = 1" by code_simp
  have eq: "?t = (fst ?t, snd ?t)" by (rule surjective_pairing)
  have el: "?l = (fst ?l, snd ?l)" by (rule surjective_pairing)
  from batch_cursor_monotone[THEN conjunct1, THEN mp, OF eq]
  have "read_num (snd ?t) \<le> read_num ?s \<longrightarrow> batch_num (snd ?t) = batch_num ?s + 1"
    by blast
  with rn have a: "batch_num (snd ?t) = 1" by simp
  from batch_cursor_monotone[THEN conjunct2, THEN conjunct2, THEN conjunct1, THEN mp, OF el]
  have "read_num (snd ?l) < read_num ?s \<longrightarrow> batch_num ?s < batch_num (snd ?l)"
    by blast
  with ln have b: "0 < batch_num (snd ?l)" by simp
  from a rn ln b show ?thesis by blast
qed


section \<open>The writes of a run\<close>

lemma copy_groups_last:
  "copy_groups gs read_id (c @ [(read_id, r)]) = (res, d) \<Longrightarrow> read_id \<notin> fst ` set c \<Longrightarrow>
   \<exists>r'. d = c @ [(read_id, r')]"
proof (induction gs arbitrary: r)
  case Nil
  then show ?case by auto
next
  case (Cons g gs)
  obtain name b where g: "g = (name, b)" by (cases g)
  from Cons.prems(2) have m: "map_of (c @ [(read_id, r)]) read_id = Some r"
    by (rule map_of_append_last)
  show ?case
  proof (cases "copy_group (c @ [(read_id, r)]) read_id name b")
    case (Inl e)
    with Cons.prems(1) g show ?thesis by auto
  next
    case (Inr d1)
    with m Cons.prems(2) have "d1 = c @ [(read_id, r\<lparr>groups := groups r @ [(name, b)]\<rparr>)]"
      by (auto simp: copy_group_def update_append_last split: blob.splits if_splits)
    with Inr Cons.prems g Cons.IH[of "r\<lparr>groups := groups r @ [(name, b)]\<rparr>"]
    show ?thesis by simp
  qed
qed

lemma copy_read_extends:
  assumes "copy_read multi_f5 read_id dest = (res, dest')"
  shows "dest' = dest \<or> (read_id \<notin> set (get_read_ids dest) \<and> (\<exists>x. dest' = dest @ [(read_id, x)]))"
proof (cases "get_read multi_f5 read_id")
  case (Inl e)
  with assms show ?thesis by (simp add: copy_read_def)
next
  case (Inr rd)
  show ?thesis
  proof (cases "run_id rd")
    case None
    with Inr assms show ?thesis by (simp add: copy_read_def)
  next
    case (Some x)
    show ?thesis
    proof (cases "read_id \<in> set (get_read_ids dest)")
      case True
      with Inr Some assms show ?thesis by (simp add: copy_read_def create_read_def)
    next
      case False
      with Inr Some assms
      have cg: "copy_groups (groups rd) read_id (dest @ [(read_id, \<lparr>run_id = Some x, groups = []\<rparr>)]) = (res, dest')"
        by (simp add: copy_read_def create_read_def)
      from False have "read_id \<notin> fst ` set dest" by (simp add: get_read_ids_def)
      from copy_groups_last[OF cg this] False show ?thesis by blast
    qed
  qed
qed

lemma grows_refl [simp]: "grows f f"
  unfolding grows_def by (metis append_Nil2)

lemma grows_trans: "grows f g \<Longrightarrow> grows g h \<Longrightarrow> grows f h"
  unfolding grows_def by (metis append.assoc)

lemma grows_create: "f p = None \<Longrightarrow> grows f (f(p \<mapsto> x))"
  unfolding grows_def by auto

lemma grows_extend: "f p = Some (Fast5 c) \<Longrightarrow> grows f (f(p \<mapsto> Fast5 (c @ ex)))"
  unfolding grows_def by auto

lemma open_append_grows: "open_append f p = Inr f' \<Longrightarrow> grows f f'"
  by (auto simp: open_append_def grows_create split: option.splits disk_file.splits)

lemma open_append_container:
  "open_append f p = Inr f' \<Longrightarrow> \<exists>c. f' p = Some (Fast5 c)"
  by (auto simp: open_append_def split: option.splits disk_file.splits)

lemma rollover_grows:
  "rollover output_folder filename_base batch_size s = (r, s') \<Longrightarrow> grows (fs s) (fs s')"
  by (auto simp: rollover_def Let_def open_append_grows split: if_splits sum.splits)

lemma write_read_grows: "grows (fs s) (fs (write_read multi_f5 read_id s))"
proof (cases "fs s (output_multi_f5 s)")
  case None
  then show ?thesis by (simp add: write_read_def)
next
  case (Some x)
  show ?thesis
  proof (cases x)
    case (Other t)
    with Some show ?thesis by (simp add: write_read_def)
  next
    case (Fast5 dest)
    obtain res dest' where cr: "copy_read multi_f5 read_id dest = (res, dest')"
      by (cases "copy_read multi_f5 read_id dest")
    from copy_read_extends[OF cr] obtain ex where "dest' = dest @ ex" by auto
    with Some Fast5 cr grows_extend[of "fs s" "output_multi_f5 s" dest ex]
    show ?thesis by (cases res) (simp_all add: write_read_def)
  qed
qed

lemma read_step_grows:
  "read_step output_folder filename_base batch_size multi_f5 read_id s = (r, s') \<Longrightarrow> grows (fs s) (fs s')"
  by (auto simp: read_step_def split: prod.splits option.splits
           intro: grows_trans[OF rollover_grows write_read_grows] rollover_grows)

lemma read_loop_grows:
  "read_loop output_folder filename_base batch_size multi_f5 ids s = (r, s') \<Longrightarrow> grows (fs s) (fs s')"
proof (induction ids arbitrary: s)
  case Nil
  then show ?case by simp
next
  case (Cons read_id ids)
  obtain r1 s1 where st: "read_step output_folder filename_base batch_size multi_f5 read_id s = (r1, s1)"
    by (cases "read_step output_folder filename_base batch_size multi_f5 read_id s")
  show ?case
  proof (cases r1)
    case None
    with Cons.prems st have "read_loop output_folder filename_base batch_size multi_f5 ids s1 = (r, s')"
      by simp
    from grows_trans[OF read_step_grows[OF st] Cons.IH[OF this]] show ?thesis .
  next
    case (Some e)
    with Cons.prems st have "s' = s1" by simp
    with read_step_grows[OF st] show ?thesis by simp
  qed
qed

lemma file_loop_grows:
  "file_loop output_folder filename_base batch_size files s = (r, s') \<Longrightarrow> grows (fs s) (fs s')"
proof (induction files arbitrary: s)
  case Nil
  then show ?case by simp
next
  case (Cons input_file files)
  show ?case
  proof (cases "open_read (fs s) input_file")
    case (Inl e)
    with Cons.prems show ?thesis by simp
  next
    case (Inr multi_f5)
    obtain r1 s1 where rl: "read_loop output_folder filename_base batch_size multi_f5
        (get_read_ids multi_f5) (open_handle input_file s) = (r1, s1)"
      by (cases "read_loop output_folder filename_base batch_size multi_f5
        (get_read_ids multi_f5) (open_handle input_file s)")
    from read_loop_grows[OF rl] have g1: "grows (fs s) (fs (close input_file s1))" by simp
    show ?thesis
    proof (cases r1)
      case None
      with Cons.prems Inr rl
      have "file_loop output_folder filename_base batch_size files (close input_file s1) = (r, s')"
        by simp
      from grows_trans[OF g1 Cons.IH[OF this]] show ?thesis .
    next
      case (Some e)
      with Cons.prems Inr rl have "s' = close input_file s1" by simp
      with g1 show ?thesis by simp
    qed
  qed
qed

lemma repackage_grows:
  "grows (fs w) (fs (snd (repackage_multi_to_multi file_list output_folder filename_base batch_size w)))"
proof (cases "open_append (fs w) (batch_path output_folder filename_base 0)")
  case (Inl e)
  then show ?thesis
    by (simp add: repackage_multi_to_multi_def Let_def world.extend_def)
next
  case (Inr f)
  define s0 where "s0 = (open_handle (batch_path output_folder filename_base 0)
      (world.extend w \<lparr>read_num = 0, batch_num = 0,
          output_file = batch_path output_folder filename_base 0, output_multi_f5 = []\<rparr>))
      \<lparr>fs := f, output_multi_f5 := batch_path output_folder filename_base 0\<rparr>"
  obtain r s1 where fl: "file_loop output_folder filename_base batch_size file_list s0 = (r, s1)"
    by (cases "file_loop output_folder filename_base batch_size file_list s0")
  have "fs s0 = f" by (simp add: s0_def)
  with file_loop_grows[OF fl] open_append_grows[OF Inr] have "grows (fs w) (fs s1)"
    by (auto intro: grows_trans)
  moreover have "snd (repackage_multi_to_multi file_list output_folder filename_base batch_size w)
      = close (output_multi_f5 s1) s1"
    using Inr fl by (cases r) (simp_all add: repackage_multi_to_multi_def Let_def world.extend_def s0_def)
  ultimately show ?thesis by simp
qed


section \<open>Batch mode: the first output\<close>

lemma close_open_handle [simp]: "close p (open_handle p s) = s"
  by (simp add: close_def open_handle_def)








section \<open>The binning table\<close>

lemma find_append_cases:
  "find P (xs @ ys) = (case find P xs of None \<Rightarrow> find P ys | Some x \<Rightarrow> Some x)"
  by (induction xs) auto

lemma length_two: "length xs = 2 \<Longrightarrow> xs = [xs ! 0, xs ! 1]"
  by (cases xs; cases "tl xs") auto

lemma not_length_two:
  "length xs \<noteq> 2 \<Longrightarrow> (case xs of [a, b] \<Rightarrow> f a b | _ \<Rightarrow> d) = d"
  by (auto split: list.splits)

lemma parse_lines_eq:
  "parse_lines lines acc =
     (if \<exists>l\<in>set lines. length (split (CHR 0x09) (strip l)) \<noteq> 2 then Inl ValueError
      else Inr (\<lambda>read_id.
             case find (\<lambda>l. split (CHR 0x09) (strip l) ! 0 = read_id) (rev lines) of
               Some l \<Rightarrow> Some (split (CHR 0x09) (strip l) ! 1)
             | None \<Rightarrow> acc read_id))"
proof (induction lines arbitrary: acc)
  case Nil
  show ?case by simp
next
  case (Cons line rest)
  let ?fields = "split (CHR 0x09) (strip line)"
  show ?case
  proof (cases "length ?fields = 2")
    case False
    then show ?thesis by (simp add: not_length_two)
  next
    case True
    from length_two[OF True] obtain a b where ab: "?fields = [a, b]" by blast
    then have step: "parse_lines (line # rest) acc = parse_lines rest (acc(a \<mapsto> b))"
      by simp
    show ?thesis
      unfolding step Cons.IH
      using ab by (auto simp: find_append_cases fun_eq_iff split: option.splits)
  qed
qed


text \<open>
  Claim C5, as the code has it. For a binning file that can be read, \<open>parse_csv\<close> raises
  \<open>ValueError\<close> if and only if some line, once the white space at its two ends is
  removed (tabs are white space), does not split at its tabs into exactly two fields.
  Otherwise it returns the table that sends a read id to the second field of the last
  line, in file order, whose first field is that id, and has no entry for an id that is
  the first field of no line. The exception leaves \<open>main\<close> before any input file is
  touched: the run ends with it and the world is as before.
\<close>

theorem binning_table_load:
  assumes "fs w csv_fp = Some (Other lines)"
  shows "parse_csv (fs w) csv_fp =
           (if \<exists>l\<in>set lines. length (split (CHR 0x09) (strip l)) \<noteq> 2 then Inl ValueError
            else Inr (\<lambda>read_id.
                   case find (\<lambda>l. split (CHR 0x09) (strip l) ! 0 = read_id) (rev lines) of
                     Some l \<Rightarrow> Some (split (CHR 0x09) (strip l) ! 1)
                   | None \<Rightarrow> None))
         \<and> ((\<exists>l\<in>set lines. length (split (CHR 0x09) (strip l)) \<noteq> 2) \<and> csv_fp \<noteq> [] \<longrightarrow>
              main input_files save_path (Some csv_fp) filename_base batch_size threads w
                = (Some ValueError, w))"
proof -
  have p: "parse_csv (fs w) csv_fp = parse_lines lines Map.empty"
    using assms by (simp add: parse_csv_def)
  have m: "main input_files save_path (Some csv_fp) filename_base batch_size threads w
             = (Some ValueError, w)"
    if "\<exists>l\<in>set lines. length (split (CHR 0x09) (strip l)) \<noteq> 2" and "csv_fp \<noteq> []"
  proof -
    from that(2) obtain c cs where c: "csv_fp = c # cs" by (cases csv_fp) auto
    from that(1) have "parse_csv (fs w) (c # cs) = Inl ValueError"
      using p unfolding c parse_lines_eq by simp
    then show ?thesis by (simp add: main_def c)
  qed
  show ?thesis
    unfolding p parse_lines_eq using m by simp
qed

theorem binning_table_load_witness:
  "(case parse_csv
           [''bins.tsv'' \<mapsto> Other [''r1'' @ [CHR 0x09] @ ''A'' @ [CHR 0x0A],
                                    ''r2'' @ [CHR 0x09] @ ''B'' @ [CHR 0x0A],
                                    ''r1'' @ [CHR 0x09] @ ''C'' @ [CHR 0x0A]]] ''bins.tsv'' of
      Inl e \<Rightarrow> False
    | Inr binning \<Rightarrow> binning ''r1'' = Some ''C'' \<and> binning ''r2'' = Some ''B'' \<and> binning ''r3'' = None)
   \<and> main [''in/a.fast5''] ''out'' (Some ''bins.tsv'') ''batch'' 4000 1
        \<lparr>fs = [''bins.tsv'' \<mapsto> Other [''r1'' @ [CHR 0x09] @ ''A'' @ [CHR 0x0A], ''r2'' @ [CHR 0x0A]],
               ''in/a.fast5'' \<mapsto> Fast5 []],
         log = [], handles = []\<rparr>
      = (Some ValueError,
         \<lparr>fs = [''bins.tsv'' \<mapsto> Other [''r1'' @ [CHR 0x09] @ ''A'' @ [CHR 0x0A], ''r2'' @ [CHR 0x0A]],
               ''in/a.fast5'' \<mapsto> Fast5 []],
         log = [], handles = []\<rparr>)"
proof -
  let ?good = "[''r1'' @ [CHR 0x09] @ ''A'' @ [CHR 0x0A],
                ''r2'' @ [CHR 0x09] @ ''B'' @ [CHR 0x0A],
                ''r1'' @ [CHR 0x09] @ ''C'' @ [CHR 0x0A]]"
  let ?bad = "[''r1'' @ [CHR 0x09] @ ''A'' @ [CHR 0x0A], ''r2'' @ [CHR 0x0A]]"
  let ?w1 = "\<lparr>fs = [''bins.tsv'' \<mapsto> Other ?good], log = [], handles = []\<rparr>"
  let ?w2 = "\<lparr>fs = [''bins.tsv'' \<mapsto> Other ?bad, ''in/a.fast5'' \<mapsto> Fast5 []],
              log = [], handles = []\<rparr>"
  have g: "\<not> (\<exists>l\<in>set ?good. length (split (CHR 0x09) (strip l)) \<noteq> 2)"
    by code_simp
  have b: "\<exists>l\<in>set ?bad. length (split (CHR 0x09) (strip l)) \<noteq> 2"
    by code_simp
  have h1: "fs ?w1 ''bins.tsv'' = Some (Other ?good)" by simp
  have h2: "fs ?w2 ''bins.tsv'' = Some (Other ?bad)" by simp
  have v1: "(case find (\<lambda>l. split (CHR 0x09) (strip l) ! 0 = ''r1'') (rev ?good) of
               Some l \<Rightarrow> Some (split (CHR 0x09) (strip l) ! 1) | None \<Rightarrow> None) = Some ''C''"
    by code_simp
  have v2: "(case find (\<lambda>l. split (CHR 0x09) (strip l) ! 0 = ''r2'') (rev ?good) of
               Some l \<Rightarrow> Some (split (CHR 0x09) (strip l) ! 1) | None \<Rightarrow> None) = Some ''B''"
    by code_simp
  have v3: "(case find (\<lambda>l. split (CHR 0x09) (strip l) ! 0 = ''r3'') (rev ?good) of
               Some l \<Rightarrow> Some (split (CHR 0x09) (strip l) ! 1) | None \<Rightarrow> None) = None"
    by code_simp
  from binning_table_load[OF h1] g
  have "parse_csv (fs ?w1) ''bins.tsv'' =
          Inr (\<lambda>read_id.
                   case find (\<lambda>l. split (CHR 0x09) (strip l) ! 0 = read_id) (rev ?good) of
                     Some l \<Rightarrow> Some (split (CHR 0x09) (strip l) ! 1)
                   | None \<Rightarrow> None)"
    by presburger
  with v1 v2 v3
  have first: "(case parse_csv (fs ?w1) ''bins.tsv'' of
      Inl e \<Rightarrow> False
    | Inr binning \<Rightarrow> binning ''r1'' = Some ''C'' \<and> binning ''r2'' = Some ''B'' \<and> binning ''r3'' = None)"
    by simp
  from binning_table_load[OF h2, of "[''in/a.fast5'']" "''out''" "''batch''" 4000 1] b
  have second: "main [''in/a.fast5''] ''out'' (Some ''bins.tsv'') ''batch'' 4000 1 ?w2 = (Some ValueError, ?w2)"
    by blast
  from first second show ?thesis by simp
qed

text \<open>
  Claim C5 as it is stated does not hold: the line that consists of the read id \<open>r1\<close>
  and a tab, that is, with an empty label, has exactly two tab-separated fields, and
  \<open>parse_csv\<close> raises on it, because \<open>strip\<close> removes the tab before the split.
\<close>

theorem binning_line_with_empty_label_rejected:
  "length (split (CHR 0x09) (''r1'' @ [CHR 0x09])) = 2 \<and>
   parse_csv [''bins.tsv'' \<mapsto> Other [''r1'' @ [CHR 0x09]]] ''bins.tsv'' = Inl ValueError"
  by (simp add: parse_csv_def strip_def isspace_def)


section \<open>Binning mode: the grouping of the read ids\<close>

lemma map_of_snoc:
  "map_of (al @ [(k, v)]) x = (case map_of al x of Some y \<Rightarrow> Some y | None \<Rightarrow> if x = k then Some v else None)"
  by (induction al) auto

lemma bin_read_ids_map_of:
  "distinct (map fst binned) \<Longrightarrow>
   distinct (map fst (bin_read_ids binning ids binned)) \<and>
   map_of (bin_read_ids binning ids binned) grp =
     (case map_of binned grp of
        Some l \<Rightarrow> Some (l @ filter (\<lambda>r. binning r = Some grp) ids)
      | None \<Rightarrow> if filter (\<lambda>r. binning r = Some grp) ids = [] then None
                else Some (filter (\<lambda>r. binning r = Some grp) ids))"
proof (induction ids arbitrary: binned)
  case Nil
  then show ?case by (simp split: option.splits)
next
  case (Cons read_id rest)
  show ?case
  proof (cases "binning read_id")
    case None
    with Cons.IH[OF Cons.prems] show ?thesis by (auto split: option.splits)
  next
    case (Some g)
    show ?thesis
    proof (cases "map_of binned g")
      case None
      then have "g \<notin> fst ` set binned" by (simp add: map_of_eq_None_iff)
      with Cons.prems have d: "distinct (map fst (binned @ [(g, [read_id])]))" by simp
      from Cons.IH[OF d] Some None show ?thesis
        by (auto simp: map_of_snoc split: option.splits)
    next
      case (Some l)
      from Cons.prems have d: "distinct (map fst (AList.update g (l @ [read_id]) binned))"
        by (simp add: distinct_update)
      from Cons.IH[OF d] Some \<open>binning read_id = Some g\<close> show ?thesis
        by (auto simp: update_conv' split: option.splits)
    qed
  qed
qed

lemma binned_entry:
  assumes "(grp, rids) \<in> set (bin_read_ids binning ids [])"
  shows "rids = filter (\<lambda>r. binning r = Some grp) ids"
proof -
  from bin_read_ids_map_of[of "[]" binning ids grp]
  have d: "distinct (map fst (bin_read_ids binning ids []))"
    and m: "map_of (bin_read_ids binning ids []) grp =
       (if filter (\<lambda>r. binning r = Some grp) ids = [] then None
        else Some (filter (\<lambda>r. binning r = Some grp) ids))"
    by simp_all
  from assms d have "map_of (bin_read_ids binning ids []) grp = Some rids"
    by (simp add: map_of_eq_Some_iff)
  with m show ?thesis by (simp split: if_splits)
qed

lemma binned_has_entry:
  assumes "read_id \<in> set ids" and "binning read_id = Some grp"
  shows "(grp, filter (\<lambda>r. binning r = Some grp) ids) \<in> set (bin_read_ids binning ids [])"
proof -
  from assms have ne: "filter (\<lambda>r. binning r = Some grp) ids \<noteq> []"
    by (auto simp: filter_empty_conv)
  from bin_read_ids_map_of[of "[]" binning ids grp] ne
  have "map_of (bin_read_ids binning ids []) grp = Some (filter (\<lambda>r. binning r = Some grp) ids)"
    by simp
  then show ?thesis by (rule map_of_SomeD)
qed


section \<open>Binning mode: one label\<close>

lemma grows_read_ids_at: "grows f f' \<Longrightarrow> read_ids_at f p \<subseteq> read_ids_at f' p"
  unfolding grows_def read_ids_at_def get_read_ids_def
  by (fastforce split: option.splits disk_file.splits)

lemma grows_other: "grows f f' \<Longrightarrow> f p = Some (Other t) \<Longrightarrow> f' p = Some (Other t)"
  unfolding grows_def by blast

lemma add_binned_read_post:
  assumes "add_binned_read multi_f5 out_file read_id w = (r, w')"
  shows "grows (fs w) (fs w')"
    and "\<forall>p. p \<noteq> out_file \<longrightarrow> fs w' p = fs w p"
    and "set (log w) \<subseteq> set (log w')"
    and "read_ids_at (fs w') out_file \<subseteq> insert read_id (read_ids_at (fs w) out_file)"
    and "r = None \<longrightarrow> read_id \<in> read_ids_at (fs w') out_file \<or>
           (\<exists>e. FailedAddSingleRead e read_id out_file \<in> set (log w'))"
    and "handles w' = handles w"
proof -
  have "grows (fs w) (fs w') \<and> (\<forall>p. p \<noteq> out_file \<longrightarrow> fs w' p = fs w p) \<and>
        set (log w) \<subseteq> set (log w') \<and>
        read_ids_at (fs w') out_file \<subseteq> insert read_id (read_ids_at (fs w) out_file) \<and>
        (r = None \<longrightarrow> read_id \<in> read_ids_at (fs w') out_file \<or>
           (\<exists>e. FailedAddSingleRead e read_id out_file \<in> set (log w'))) \<and>
        handles w' = handles w"
  proof (cases "fs w out_file")
    case None
    with assms show ?thesis by (auto simp: add_binned_read_def)
  next
    case (Some x)
    show ?thesis
    proof (cases x)
      case (Other t)
      with Some assms show ?thesis by (auto simp: add_binned_read_def)
    next
      case (Fast5 dest)
      show ?thesis
      proof (cases "read_id \<in> set (get_read_ids dest)")
        case True
        with Some Fast5 assms show ?thesis
          by (auto simp: add_binned_read_def read_ids_at_def)
      next
        case False
        obtain res dest' where cr: "copy_read multi_f5 read_id dest = (res, dest')"
          by (cases "copy_read multi_f5 read_id dest")
        from copy_read_extends[OF cr]
        have ext: "dest' = dest \<or> (\<exists>x. dest' = dest @ [(read_id, x)])" by blast
        then obtain ex where ex: "dest' = dest @ ex" by auto
        have g: "grows (fs w) ((fs w)(out_file \<mapsto> Fast5 dest'))"
          unfolding ex using Some Fast5 by (simp add: grows_extend)
        from ext have ids: "set (get_read_ids dest') \<subseteq> insert read_id (set (get_read_ids dest))"
          by (auto simp: get_read_ids_def)
        show ?thesis
        proof (cases res)
          case None
          from copy_read_none[OF cr[unfolded None]]
          have "read_id \<in> set (get_read_ids dest')" by (auto simp: get_read_ids_def)
          with Some Fast5 False cr None assms g ids show ?thesis
            by (auto simp: add_binned_read_def read_ids_at_def)
        next
          case (Some e)
          with \<open>fs w out_file = Some x\<close> Fast5 False cr assms g ids show ?thesis
            by (auto simp: add_binned_read_def read_ids_at_def)
        qed
      qed
    qed
  qed
  then show "grows (fs w) (fs w')"
    and "\<forall>p. p \<noteq> out_file \<longrightarrow> fs w' p = fs w p"
    and "set (log w) \<subseteq> set (log w')"
    and "read_ids_at (fs w') out_file \<subseteq> insert read_id (read_ids_at (fs w) out_file)"
    and "r = None \<longrightarrow> read_id \<in> read_ids_at (fs w') out_file \<or>
           (\<exists>e. FailedAddSingleRead e read_id out_file \<in> set (log w'))"
    and "handles w' = handles w"
    by blast+
qed

lemma copy_binned_post:
  assumes "copy_binned multi_f5 out_file ids w = (r, w')"
  shows "grows (fs w) (fs w') \<and> (\<forall>p. p \<noteq> out_file \<longrightarrow> fs w' p = fs w p) \<and>
         set (log w) \<subseteq> set (log w') \<and>
         read_ids_at (fs w') out_file \<subseteq> read_ids_at (fs w) out_file \<union> set ids \<and>
         (r = None \<longrightarrow> (\<forall>read_id\<in>set ids. read_id \<in> read_ids_at (fs w') out_file \<or>
            (\<exists>e. FailedAddSingleRead e read_id out_file \<in> set (log w')))) \<and>
         handles w' = handles w"
  using assms
proof (induction ids arbitrary: w)
  case Nil
  then show ?case by simp
next
  case (Cons read_id rest)
  obtain r1 w1 where st: "add_binned_read multi_f5 out_file read_id w = (r1, w1)"
    by (cases "add_binned_read multi_f5 out_file read_id w")
  note p1 = add_binned_read_post[OF st]
  show ?case
  proof (cases r1)
    case (Some e)
    with Cons.prems st have "r = Some e" "w' = w1" by simp_all
    with p1 show ?thesis by auto
  next
    case None
    with Cons.prems st have rest: "copy_binned multi_f5 out_file rest w1 = (r, w')" by simp
    note p2 = Cons.IH[OF rest]
    from p2 have g2: "grows (fs w1) (fs w')" by blast
    have "grows (fs w) (fs w')" using p1(1) g2 by (rule grows_trans)
    moreover have "\<forall>p. p \<noteq> out_file \<longrightarrow> fs w' p = fs w p" using p1(2) p2 by simp
    moreover have "set (log w) \<subseteq> set (log w')" using p1(3) p2 by blast
    moreover have "read_ids_at (fs w') out_file \<subseteq> read_ids_at (fs w) out_file \<union> set (read_id # rest)"
      using p1(4) p2 by auto
    moreover have "r = None \<longrightarrow> (\<forall>x\<in>set (read_id # rest). x \<in> read_ids_at (fs w') out_file \<or>
            (\<exists>e. FailedAddSingleRead e x out_file \<in> set (log w')))"
    proof (intro impI ballI)
      fix x assume rn: "r = None" and x: "x \<in> set (read_id # rest)"
      show "x \<in> read_ids_at (fs w') out_file \<or> (\<exists>e. FailedAddSingleRead e x out_file \<in> set (log w'))"
      proof (cases "x \<in> set rest")
        case True
        with p2 rn show ?thesis by blast
      next
        case False
        with x have "x = read_id" by simp
        with p1(5) None grows_read_ids_at[OF g2, of out_file] p2 show ?thesis by blast
      qed
    qed
    moreover have "handles w' = handles w" using p1(6) p2 by simp
    ultimately show ?thesis by blast
  qed
qed


lemma open_append_Inl:
  "open_append f p = Inl e \<longleftrightarrow> (\<exists>t. f p = Some (Other t)) \<and> e = OSError"
  by (auto simp: open_append_def split: option.splits disk_file.splits)

lemma open_append_post:
  assumes "open_append f p = Inr f'"
  shows "grows f f'" and "\<forall>q. q \<noteq> p \<longrightarrow> f' q = f q" and "read_ids_at f' p = read_ids_at f p"
  using assms
  by (auto simp: open_append_def grows_create read_ids_at_def get_read_ids_def
           split: option.splits disk_file.splits)

lemma grows_open_append_Inl:
  "grows f f' \<Longrightarrow> open_append f p = Inl e \<Longrightarrow> open_append f' p = Inl e"
  unfolding open_append_Inl by (auto dest: grows_other)

lemma write_label_post:
  fixes w :: world and output_folder grp input_file :: string
    and multi_f5 :: container and read_ids :: "string list"
  defines "path \<equiv> bin_path output_folder grp input_file"
  defines "w' \<equiv> write_label multi_f5 input_file output_folder grp read_ids w"
  shows "grows (fs w) (fs w') \<and> (\<forall>p. p \<noteq> path \<longrightarrow> fs w' p = fs w p) \<and>
         set (log w) \<subseteq> set (log w') \<and>
         read_ids_at (fs w') path \<subseteq> read_ids_at (fs w) path \<union> set read_ids \<and>
         (\<forall>read_id\<in>set read_ids. read_id \<in> read_ids_at (fs w') path \<or>
            (\<exists>e. FailedWriteMultiRead e path \<in> set (log w')) \<or>
            (\<exists>e. FailedAddSingleRead e read_id path \<in> set (log w'))) \<and>
         handles w' = handles w \<and>
         (\<forall>e. open_append (fs w) path = Inl e \<longrightarrow> FailedWriteMultiRead e path \<in> set (log w'))"
proof (cases "open_append (fs w) path")
  case (Inl e)
  then have "w' = log_error (FailedWriteMultiRead e path) w"
    by (simp add: w'_def write_label_def path_def Let_def)
  with Inl show ?thesis by auto
next
  case (Inr f)
  note oa = open_append_post[OF Inr]
  obtain r w1 where cb: "copy_binned multi_f5 path read_ids (open_handle path (w\<lparr>fs := f\<rparr>)) = (r, w1)"
    by (cases "copy_binned multi_f5 path read_ids (open_handle path (w\<lparr>fs := f\<rparr>))")
  from copy_binned_post[OF cb]
  have p: "grows f (fs w1)" "\<forall>p. p \<noteq> path \<longrightarrow> fs w1 p = f p"
      "set (log w) \<subseteq> set (log w1)"
      "read_ids_at (fs w1) path \<subseteq> read_ids_at f path \<union> set read_ids"
      "r = None \<longrightarrow> (\<forall>read_id\<in>set read_ids. read_id \<in> read_ids_at (fs w1) path \<or>
            (\<exists>e. FailedAddSingleRead e read_id path \<in> set (log w1)))"
      "handles w1 = path # handles w"
    by simp_all
  have g: "grows (fs w) (fs w1)" using oa(1) p(1) by (rule grows_trans)
  show ?thesis
  proof (cases r)
    case None
    with Inr cb have "w' = close path w1"
      by (simp add: w'_def write_label_def path_def Let_def)
    with g oa p None Inr show ?thesis by auto
  next
    case (Some e)
    with Inr cb have "w' = log_error (FailedWriteMultiRead e path) (close path w1)"
      by (simp add: w'_def write_label_def path_def Let_def)
    with g oa p Inr show ?thesis by auto
  qed
qed


section \<open>Binning mode: the labels of one input file\<close>

lemma read_ids_at_cong: "f p = f' p \<Longrightarrow> read_ids_at f p = read_ids_at f' p"
  by (simp add: read_ids_at_def)

lemma write_labels_post:
  fixes w :: world
  shows "grows (fs w) (fs (write_labels multi_f5 input_file output_folder binned w)) \<and>
     set (log w) \<subseteq> set (log (write_labels multi_f5 input_file output_folder binned w)) \<and>
     handles (write_labels multi_f5 input_file output_folder binned w) = handles w \<and>
     (\<forall>p read_id. read_id \<in> read_ids_at (fs (write_labels multi_f5 input_file output_folder binned w)) p \<longrightarrow>
        read_id \<in> read_ids_at (fs w) p \<or>
        (\<exists>grp read_ids. (grp, read_ids) \<in> set binned \<and> p = bin_path output_folder grp input_file \<and>
           read_id \<in> set read_ids)) \<and>
     (\<forall>grp read_ids read_id. (grp, read_ids) \<in> set binned \<and> read_id \<in> set read_ids \<longrightarrow>
        read_id \<in> read_ids_at (fs (write_labels multi_f5 input_file output_folder binned w))
                     (bin_path output_folder grp input_file) \<or>
        (\<exists>e. FailedWriteMultiRead e (bin_path output_folder grp input_file)
               \<in> set (log (write_labels multi_f5 input_file output_folder binned w))) \<or>
        (\<exists>e. FailedAddSingleRead e read_id (bin_path output_folder grp input_file)
               \<in> set (log (write_labels multi_f5 input_file output_folder binned w)))) \<and>
     (\<forall>grp read_ids e. (grp, read_ids) \<in> set binned \<and>
        open_append (fs w) (bin_path output_folder grp input_file) = Inl e \<longrightarrow>
        FailedWriteMultiRead e (bin_path output_folder grp input_file)
          \<in> set (log (write_labels multi_f5 input_file output_folder binned w)))"
proof (induction binned arbitrary: w)
  case Nil
  show ?case by simp
next
  case (Cons entry rest)
  obtain g rs where entry: "entry = (g, rs)" by (cases entry)
  define w1 where "w1 = write_label multi_f5 input_file output_folder g rs w"
  define w' where "w' = write_labels multi_f5 input_file output_folder rest w1"
  let ?path = "\<lambda>grp. bin_path output_folder grp input_file"
  have run: "write_labels multi_f5 input_file output_folder (entry # rest) w = w'"
    by (simp add: entry w1_def w'_def)
  from write_label_post[where w=w and output_folder=output_folder and grp=g and input_file=input_file
      and read_ids=rs]
  have a: "grows (fs w) (fs w1)" "\<forall>p. p \<noteq> ?path g \<longrightarrow> fs w1 p = fs w p"
      "set (log w) \<subseteq> set (log w1)"
      "read_ids_at (fs w1) (?path g) \<subseteq> read_ids_at (fs w) (?path g) \<union> set rs"
      "\<forall>read_id\<in>set rs. read_id \<in> read_ids_at (fs w1) (?path g) \<or>
            (\<exists>e. FailedWriteMultiRead e (?path g) \<in> set (log w1)) \<or>
            (\<exists>e. FailedAddSingleRead e read_id (?path g) \<in> set (log w1))"
      "handles w1 = handles w"
      "\<forall>e. open_append (fs w) (?path g) = Inl e \<longrightarrow> FailedWriteMultiRead e (?path g) \<in> set (log w1)"
    unfolding w1_def by blast+
  from Cons.IH[of w1]
  have b: "grows (fs w1) (fs w')" "set (log w1) \<subseteq> set (log w')" "handles w' = handles w1"
      "\<forall>p read_id. read_id \<in> read_ids_at (fs w') p \<longrightarrow>
        read_id \<in> read_ids_at (fs w1) p \<or>
        (\<exists>grp read_ids. (grp, read_ids) \<in> set rest \<and> p = ?path grp \<and> read_id \<in> set read_ids)"
      "\<forall>grp read_ids read_id. (grp, read_ids) \<in> set rest \<and> read_id \<in> set read_ids \<longrightarrow>
        read_id \<in> read_ids_at (fs w') (?path grp) \<or>
        (\<exists>e. FailedWriteMultiRead e (?path grp) \<in> set (log w')) \<or>
        (\<exists>e. FailedAddSingleRead e read_id (?path grp) \<in> set (log w'))"
      "\<forall>grp read_ids e. (grp, read_ids) \<in> set rest \<and> open_append (fs w1) (?path grp) = Inl e \<longrightarrow>
        FailedWriteMultiRead e (?path grp) \<in> set (log w')"
    unfolding w'_def by blast+
  have c1: "grows (fs w) (fs w')" using a(1) b(1) by (rule grows_trans)
  have c2: "set (log w) \<subseteq> set (log w')" using a(3) b(2) by blast
  have c3: "handles w' = handles w" using a(6) b(3) by simp
  have c4: "read_id \<in> read_ids_at (fs w) p \<or>
        (\<exists>grp read_ids. (grp, read_ids) \<in> set (entry # rest) \<and> p = ?path grp \<and> read_id \<in> set read_ids)"
    if "read_id \<in> read_ids_at (fs w') p" for p read_id
  proof -
    from b(4) that have "read_id \<in> read_ids_at (fs w1) p \<or>
        (\<exists>grp read_ids. (grp, read_ids) \<in> set rest \<and> p = ?path grp \<and> read_id \<in> set read_ids)"
      by blast
    then show ?thesis
    proof
      assume in1: "read_id \<in> read_ids_at (fs w1) p"
      show ?thesis
      proof (cases "p = ?path g")
        case True
        with in1 a(4) have "read_id \<in> read_ids_at (fs w) p \<or> read_id \<in> set rs" by auto
        with True entry show ?thesis by auto
      next
        case False
        with a(2) have "fs w1 p = fs w p" by simp
        then have "read_ids_at (fs w1) p = read_ids_at (fs w) p" by (simp add: read_ids_at_def)
        with in1 show ?thesis by simp
      qed
    next
      assume "\<exists>grp read_ids. (grp, read_ids) \<in> set rest \<and> p = ?path grp \<and> read_id \<in> set read_ids"
      then show ?thesis by auto
    qed
  qed
  have c5: "read_id \<in> read_ids_at (fs w') (?path grp) \<or>
        (\<exists>e. FailedWriteMultiRead e (?path grp) \<in> set (log w')) \<or>
        (\<exists>e. FailedAddSingleRead e read_id (?path grp) \<in> set (log w'))"
    if "(grp, read_ids) \<in> set (entry # rest)" and "read_id \<in> set read_ids" for grp read_ids read_id
  proof (cases "(grp, read_ids) \<in> set rest")
    case True
    with b(5) that(2) show ?thesis by blast
  next
    case False
    with that(1) entry have "grp = g" "read_ids = rs" by auto
    with a(5) that(2)
    have "read_id \<in> read_ids_at (fs w1) (?path grp) \<or>
            (\<exists>e. FailedWriteMultiRead e (?path grp) \<in> set (log w1)) \<or>
            (\<exists>e. FailedAddSingleRead e read_id (?path grp) \<in> set (log w1))"
      by blast
    with grows_read_ids_at[OF b(1), of "?path grp"] b(2) show ?thesis by blast
  qed
  have c6: "FailedWriteMultiRead e (?path grp) \<in> set (log w')"
    if "(grp, read_ids) \<in> set (entry # rest)" and "open_append (fs w) (?path grp) = Inl e"
    for grp read_ids e
  proof (cases "(grp, read_ids) \<in> set rest")
    case True
    from grows_open_append_Inl[OF a(1) that(2)] True b(6) show ?thesis by blast
  next
    case False
    with that(1) entry have "grp = g" by auto
    with a(7) that(2) b(2) show ?thesis by blast
  qed
  show ?case unfolding run using c1 c2 c3 c4 c5 c6 by blast
qed


lemma write_labels_new_ids:
  fixes w :: world
  assumes "read_id \<in> read_ids_at (fs (write_labels multi_f5 input_file output_folder binned w)) p"
    and "read_id \<notin> read_ids_at (fs w) p"
  shows "\<exists>grp read_ids. (grp, read_ids) \<in> set binned \<and> p = bin_path output_folder grp input_file \<and>
           read_id \<in> set read_ids"
  using write_labels_post[of w multi_f5 input_file output_folder binned] assms by blast

lemma write_labels_processed:
  fixes w :: world
  assumes "(grp, read_ids) \<in> set binned" and "read_id \<in> set read_ids"
  shows "read_id \<in> read_ids_at (fs (write_labels multi_f5 input_file output_folder binned w))
                     (bin_path output_folder grp input_file) \<or>
        (\<exists>e. FailedWriteMultiRead e (bin_path output_folder grp input_file)
               \<in> set (log (write_labels multi_f5 input_file output_folder binned w))) \<or>
        (\<exists>e. FailedAddSingleRead e read_id (bin_path output_folder grp input_file)
               \<in> set (log (write_labels multi_f5 input_file output_folder binned w)))"
  using write_labels_post[of w multi_f5 input_file output_folder binned] assms by blast

lemma write_labels_open_failure:
  fixes w :: world
  assumes "(grp, read_ids) \<in> set binned"
    and "open_append (fs w) (bin_path output_folder grp input_file) = Inl e"
  shows "FailedWriteMultiRead e (bin_path output_folder grp input_file)
          \<in> set (log (write_labels multi_f5 input_file output_folder binned w))"
  using write_labels_post[of w multi_f5 input_file output_folder binned] assms by blast

lemma open_read_Inr: "open_read f p = Inr c \<longleftrightarrow> f p = Some (Fast5 c)"
  by (auto simp: open_read_def split: option.splits disk_file.splits)

lemma multi_to_adapter_multi_opened:
  assumes "fs w input_file = Some (Fast5 multi_f5)"
  shows "multi_to_adapter_multi input_file output_folder binning w =
           ([basename input_file, basename input_file],
            close input_file
              (write_labels multi_f5 input_file output_folder
                 (bin_read_ids binning (get_read_ids multi_f5) []) (open_handle input_file w)))"
  using assms by (simp add: multi_to_adapter_multi_def open_read_def Let_def)

lemma multi_to_adapter_multi_unopened:
  assumes "open_read (fs w) input_file = Inl e"
  shows "multi_to_adapter_multi input_file output_folder binning w =
           ([basename input_file], log_error (FailedCopyFrom e input_file) w)"
  using assms by (simp add: multi_to_adapter_multi_def Let_def)

lemma binned_new_reads:
  assumes "multi_to_adapter_multi input_file output_folder binning w = (results, w')"
    and "read_id \<in> read_ids_at (fs w') p" and "read_id \<notin> read_ids_at (fs w) p"
  shows "\<exists>multi_f5 grp. fs w input_file = Some (Fast5 multi_f5) \<and>
           read_id \<in> set (get_read_ids multi_f5) \<and> binning read_id = Some grp \<and>
           p = bin_path output_folder grp input_file"
proof (cases "open_read (fs w) input_file")
  case (Inl e)
  from multi_to_adapter_multi_unopened[OF Inl] assms(1) have "fs w' = fs w" by auto
  with assms(2,3) show ?thesis by simp
next
  case (Inr multi_f5)
  then have o: "fs w input_file = Some (Fast5 multi_f5)" by (simp add: open_read_Inr)
  let ?binned = "bin_read_ids binning (get_read_ids multi_f5) []"
  let ?w1 = "write_labels multi_f5 input_file output_folder ?binned (open_handle input_file w)"
  from multi_to_adapter_multi_opened[OF o] assms(1) have "fs w' = fs ?w1" by auto
  with assms(2) have "read_id \<in> read_ids_at (fs ?w1) p" by simp
  moreover from assms(3) have "read_id \<notin> read_ids_at (fs (open_handle input_file w)) p" by simp
  ultimately obtain grp read_ids where e: "(grp, read_ids) \<in> set ?binned"
    and p: "p = bin_path output_folder grp input_file" and r: "read_id \<in> set read_ids"
    using write_labels_new_ids by blast
  from binned_entry[OF e] r have "read_id \<in> set (get_read_ids multi_f5)" "binning read_id = Some grp"
    by auto
  with o p show ?thesis by blast
qed

lemma binned_read_processed:
  assumes "multi_to_adapter_multi input_file output_folder binning w = (results, w')"
    and "fs w input_file = Some (Fast5 multi_f5)"
    and "read_id \<in> set (get_read_ids multi_f5)" and "binning read_id = Some grp"
  shows "read_id \<in> read_ids_at (fs w') (bin_path output_folder grp input_file) \<or>
         (\<exists>e. FailedWriteMultiRead e (bin_path output_folder grp input_file) \<in> set (log w')) \<or>
         (\<exists>e. FailedAddSingleRead e read_id (bin_path output_folder grp input_file) \<in> set (log w'))"
proof -
  let ?binned = "bin_read_ids binning (get_read_ids multi_f5) []"
  let ?w1 = "write_labels multi_f5 input_file output_folder ?binned (open_handle input_file w)"
  from multi_to_adapter_multi_opened[OF assms(2)] assms(1)
  have w': "fs w' = fs ?w1" "log w' = log ?w1" by auto
  have "(grp, filter (\<lambda>r. binning r = Some grp) (get_read_ids multi_f5)) \<in> set ?binned"
    using assms(3,4) by (rule binned_has_entry)
  moreover have "read_id \<in> set (filter (\<lambda>r. binning r = Some grp) (get_read_ids multi_f5))"
    using assms(3,4) by simp
  ultimately show ?thesis unfolding w' by (rule write_labels_processed)
qed

lemma binned_destination_failure_logged:
  assumes "multi_to_adapter_multi input_file output_folder binning w = (results, w')"
    and "fs w input_file = Some (Fast5 multi_f5)"
    and "read_id \<in> set (get_read_ids multi_f5)" and "binning read_id = Some grp"
    and "open_append (fs w) (bin_path output_folder grp input_file) = Inl e"
  shows "FailedWriteMultiRead e (bin_path output_folder grp input_file) \<in> set (log w')"
proof -
  let ?binned = "bin_read_ids binning (get_read_ids multi_f5) []"
  let ?w1 = "write_labels multi_f5 input_file output_folder ?binned (open_handle input_file w)"
  from multi_to_adapter_multi_opened[OF assms(2)] assms(1)
  have w': "log w' = log ?w1" by auto
  have "(grp, filter (\<lambda>r. binning r = Some grp) (get_read_ids multi_f5)) \<in> set ?binned"
    using assms(3,4) by (rule binned_has_entry)
  moreover from assms(5)
  have "open_append (fs (open_handle input_file w)) (bin_path output_folder grp input_file) = Inl e"
    by simp
  ultimately show ?thesis unfolding w' by (rule write_labels_open_failure)
qed


subsection \<open>The work units of a run\<close>

lemma basename_no_slash: "CHR ''/'' \<notin> set (basename p)"
proof -
  have "\<forall>c\<in>set (takeWhile (\<lambda>c. c \<noteq> CHR ''/'') (rev p)). c \<noteq> CHR ''/''"
    by (auto dest: set_takeWhileD)
  then show ?thesis by (auto simp: basename_def)
qed

lemma bin_path_as_written:
  assumes "output_folder \<noteq> []" and "last output_folder \<noteq> CHR ''/''"
    and "grp \<noteq> []" and "hd grp \<noteq> CHR ''/''" and "last grp \<noteq> CHR ''/''"
  shows "bin_path output_folder grp input_file = spec_bin_path output_folder grp input_file"
proof -
  have b: "basename input_file = [] \<or> hd (basename input_file) \<noteq> CHR ''/''"
    using basename_no_slash[of input_file] by (cases "basename input_file") auto
  from assms have j1: "join2 output_folder grp = output_folder @ ''/'' @ grp"
    by (simp add: join2_def)
  from assms(3,5) have "last (output_folder @ ''/'' @ grp) \<noteq> CHR ''/''" by simp
  with b have "join2 (output_folder @ ''/'' @ grp) (basename input_file)
      = (output_folder @ ''/'' @ grp) @ ''/'' @ basename input_file"
    by (auto simp: join2_def)
  with j1 show ?thesis by (simp add: bin_path_def path_join_def spec_bin_path_def)
qed

lemma unit_grows:
  "grows (fs w) (fs (snd (multi_to_adapter_multi input_file output_folder binning w)))"
  "set (log w) \<subseteq> set (log (snd (multi_to_adapter_multi input_file output_folder binning w)))"
proof -
  have "grows (fs w) (fs (snd (multi_to_adapter_multi input_file output_folder binning w))) \<and>
        set (log w) \<subseteq> set (log (snd (multi_to_adapter_multi input_file output_folder binning w)))"
  proof (cases "open_read (fs w) input_file")
    case (Inl e)
    from multi_to_adapter_multi_unopened[OF Inl] show ?thesis by auto
  next
    case (Inr multi_f5)
    then have o: "fs w input_file = Some (Fast5 multi_f5)" by (simp add: open_read_Inr)
    from write_labels_post[of "open_handle input_file w" multi_f5 input_file output_folder
        "bin_read_ids binning (get_read_ids multi_f5) []"]
    show ?thesis unfolding multi_to_adapter_multi_opened[OF o] by simp
  qed
  then show "grows (fs w) (fs (snd (multi_to_adapter_multi input_file output_folder binning w)))"
    and "set (log w) \<subseteq> set (log (snd (multi_to_adapter_multi input_file output_folder binning w)))"
    by blast+
qed

lemma grows_container:
  assumes "grows f f'" and "f p = Some (Fast5 c)"
  shows "\<exists>c'. f' p = Some (Fast5 c') \<and> set (get_read_ids c) \<subseteq> set (get_read_ids c')"
  using assms unfolding grows_def by (fastforce simp: get_read_ids_def)


lemma units_post:
  fixes w :: world and output_folder :: string and binning :: "string \<rightharpoonup> string"
  defines "unit \<equiv> (\<lambda>w' filename. snd (multi_to_adapter_multi filename output_folder binning w'))"
  shows "grows (fs w) (fs (foldl unit w files)) \<and>
     set (log w) \<subseteq> set (log (foldl unit w files)) \<and>
     (\<forall>p read_id. read_id \<in> read_ids_at (fs (foldl unit w files)) p \<and>
          read_id \<notin> read_ids_at (fs w) p \<longrightarrow>
        (\<exists>input_file grp. input_file \<in> set files \<and>
           read_id \<in> read_ids_at (fs (foldl unit w files)) input_file \<and>
           binning read_id = Some grp \<and> p = bin_path output_folder grp input_file)) \<and>
     (\<forall>input_file multi_f5 read_id grp.
        input_file \<in> set files \<and> fs w input_file = Some (Fast5 multi_f5) \<and>
        read_id \<in> set (get_read_ids multi_f5) \<and> binning read_id = Some grp \<longrightarrow>
        read_id \<in> read_ids_at (fs (foldl unit w files)) (bin_path output_folder grp input_file) \<or>
        (\<exists>e. FailedWriteMultiRead e (bin_path output_folder grp input_file)
               \<in> set (log (foldl unit w files))) \<or>
        (\<exists>e. FailedAddSingleRead e read_id (bin_path output_folder grp input_file)
               \<in> set (log (foldl unit w files))))"
proof (induction files arbitrary: w)
  case Nil
  show ?case by simp
next
  case (Cons x files)
  define w1 where "w1 = unit w x"
  define w' where "w' = foldl unit w1 files"
  have run: "foldl unit w (x # files) = w'" by (simp add: w1_def w'_def)
  obtain res where u: "multi_to_adapter_multi x output_folder binning w = (res, w1)"
    by (cases "multi_to_adapter_multi x output_folder binning w") (simp add: w1_def unit_def)
  have g1: "grows (fs w) (fs w1)" and l1: "set (log w) \<subseteq> set (log w1)"
    using unit_grows[of w x output_folder binning] by (simp_all add: w1_def unit_def)
  from Cons.IH[of w1]
  have g2: "grows (fs w1) (fs w')" and l2: "set (log w1) \<subseteq> set (log w')"
    and a2: "\<forall>p read_id. read_id \<in> read_ids_at (fs w') p \<and> read_id \<notin> read_ids_at (fs w1) p \<longrightarrow>
        (\<exists>input_file grp. input_file \<in> set files \<and> read_id \<in> read_ids_at (fs w') input_file \<and>
           binning read_id = Some grp \<and> p = bin_path output_folder grp input_file)"
    and b2: "\<forall>input_file multi_f5 read_id grp.
        input_file \<in> set files \<and> fs w1 input_file = Some (Fast5 multi_f5) \<and>
        read_id \<in> set (get_read_ids multi_f5) \<and> binning read_id = Some grp \<longrightarrow>
        read_id \<in> read_ids_at (fs w') (bin_path output_folder grp input_file) \<or>
        (\<exists>e. FailedWriteMultiRead e (bin_path output_folder grp input_file) \<in> set (log w')) \<or>
        (\<exists>e. FailedAddSingleRead e read_id (bin_path output_folder grp input_file) \<in> set (log w'))"
    unfolding w'_def by blast+
  have c1: "grows (fs w) (fs w')" using g1 g2 by (rule grows_trans)
  have c2: "set (log w) \<subseteq> set (log w')" using l1 l2 by blast
  have c3: "\<exists>input_file grp. input_file \<in> set (x # files) \<and>
           read_id \<in> read_ids_at (fs w') input_file \<and>
           binning read_id = Some grp \<and> p = bin_path output_folder grp input_file"
    if new: "read_id \<in> read_ids_at (fs w') p" "read_id \<notin> read_ids_at (fs w) p" for p read_id
  proof (cases "read_id \<in> read_ids_at (fs w1) p")
    case True
    from binned_new_reads[OF u True new(2)] obtain multi_f5 grp where
      o: "fs w x = Some (Fast5 multi_f5)" and r: "read_id \<in> set (get_read_ids multi_f5)"
      and b: "binning read_id = Some grp" and p: "p = bin_path output_folder grp x"
      by blast
    from o r have "read_id \<in> read_ids_at (fs w) x" by (simp add: read_ids_at_def)
    with grows_read_ids_at[OF c1, of x] have "read_id \<in> read_ids_at (fs w') x" by blast
    with b p show ?thesis by auto
  next
    case False
    with a2 new(1) obtain input_file grp where "input_file \<in> set files"
      "read_id \<in> read_ids_at (fs w') input_file" "binning read_id = Some grp"
      "p = bin_path output_folder grp input_file"
      by blast
    then show ?thesis by auto
  qed
  have c4: "read_id \<in> read_ids_at (fs w') (bin_path output_folder grp input_file) \<or>
        (\<exists>e. FailedWriteMultiRead e (bin_path output_folder grp input_file) \<in> set (log w')) \<or>
        (\<exists>e. FailedAddSingleRead e read_id (bin_path output_folder grp input_file) \<in> set (log w'))"
    if h: "input_file \<in> set (x # files)" "fs w input_file = Some (Fast5 multi_f5)"
       "read_id \<in> set (get_read_ids multi_f5)" "binning read_id = Some grp"
    for input_file multi_f5 read_id grp
  proof (cases "input_file = x")
    case True
    from binned_read_processed[OF u h(2)[unfolded True] h(3,4)]
    have "read_id \<in> read_ids_at (fs w1) (bin_path output_folder grp x) \<or>
        (\<exists>e. FailedWriteMultiRead e (bin_path output_folder grp x) \<in> set (log w1)) \<or>
        (\<exists>e. FailedAddSingleRead e read_id (bin_path output_folder grp x) \<in> set (log w1))" .
    with grows_read_ids_at[OF g2, of "bin_path output_folder grp x"] l2 True
    show ?thesis by blast
  next
    case False
    with h(1) have inf: "input_file \<in> set files" by simp
    from grows_container[OF g1 h(2)] obtain c' where
      "fs w1 input_file = Some (Fast5 c')" "set (get_read_ids multi_f5) \<subseteq> set (get_read_ids c')"
      by blast
    with h(3) have "fs w1 input_file = Some (Fast5 c')" "read_id \<in> set (get_read_ids c')" by auto
    with b2 inf h(4) show ?thesis by blast
  qed
  show ?case unfolding run using c1 c2 c3 c4 by blast
qed


text \<open>
  Claim C4, as the code has it. Take a binning-mode run over a list of input files, the
  work units run one after the other. A read id that the run adds to the container at
  some path is in one of the input files, has an entry in the binning table, and the path
  is \<open>os.path.join\<close> of the output folder, the label of that entry and the base name of
  that input file; so a read without an entry is added to no output, and a read with an
  entry is added to no other output than those of its label. In the other direction, when
  the pool could be made, a read of an input container that has an entry, for which no
  failure of its destination and no failure of its own copy was logged, is in the
  container at that path after the run. That path is the output root, the label and the
  base name with slashes between them whenever output root and label are not empty, do
  not end with a slash, and the label does not begin with one.
\<close>

theorem binned_reads_placement:
  assumes "batch_split_multi_to_adapter_multi file_list output_folder threads binning w = (r, w')"
  shows "(\<forall>p read_id. read_id \<in> read_ids_at (fs w') p \<and> read_id \<notin> read_ids_at (fs w) p \<longrightarrow>
            (\<exists>input_file grp. input_file \<in> set file_list \<and>
               read_id \<in> read_ids_at (fs w') input_file \<and> binning read_id = Some grp \<and>
               p = bin_path output_folder grp input_file)) \<and>
         (\<forall>input_file multi_f5 read_id grp.
            r = None \<and> input_file \<in> set file_list \<and>
            fs w input_file = Some (Fast5 multi_f5) \<and>
            read_id \<in> set (get_read_ids multi_f5) \<and> binning read_id = Some grp \<and>
            (\<forall>e. FailedWriteMultiRead e (bin_path output_folder grp input_file) \<notin> set (log w')) \<and>
            (\<forall>e. FailedAddSingleRead e read_id (bin_path output_folder grp input_file) \<notin> set (log w')) \<longrightarrow>
            read_id \<in> read_ids_at (fs w') (bin_path output_folder grp input_file)) \<and>
         (\<forall>grp input_file.
            output_folder \<noteq> [] \<and> last output_folder \<noteq> CHR ''/'' \<and>
            grp \<noteq> [] \<and> hd grp \<noteq> CHR ''/'' \<and> last grp \<noteq> CHR ''/'' \<longrightarrow>
            bin_path output_folder grp input_file = spec_bin_path output_folder grp input_file)"
proof (cases "threads < 1")
  case True
  with assms have "w' = w" "r \<noteq> None"
    by (auto simp: batch_split_multi_to_adapter_multi_def)
  then show ?thesis using bin_path_as_written by auto
next
  case False
  with assms have w': "w' = foldl (\<lambda>w' filename. snd (multi_to_adapter_multi filename output_folder binning w'))
                    w file_list"
    by (auto simp: batch_split_multi_to_adapter_multi_def)
  note u = units_post[of w output_folder binning file_list, folded w']
  from u have a: "\<forall>p read_id. read_id \<in> read_ids_at (fs w') p \<and> read_id \<notin> read_ids_at (fs w) p \<longrightarrow>
            (\<exists>input_file grp. input_file \<in> set file_list \<and>
               read_id \<in> read_ids_at (fs w') input_file \<and> binning read_id = Some grp \<and>
               p = bin_path output_folder grp input_file)"
    by (elim conjE)
  from u have b: "\<forall>input_file multi_f5 read_id grp.
        input_file \<in> set file_list \<and> fs w input_file = Some (Fast5 multi_f5) \<and>
        read_id \<in> set (get_read_ids multi_f5) \<and> binning read_id = Some grp \<longrightarrow>
        read_id \<in> read_ids_at (fs w') (bin_path output_folder grp input_file) \<or>
        (\<exists>e. FailedWriteMultiRead e (bin_path output_folder grp input_file) \<in> set (log w')) \<or>
        (\<exists>e. FailedAddSingleRead e read_id (bin_path output_folder grp input_file) \<in> set (log w'))"
    by (elim conjE)
  from b have b': "\<forall>input_file multi_f5 read_id grp.
            r = None \<and> input_file \<in> set file_list \<and>
            fs w input_file = Some (Fast5 multi_f5) \<and>
            read_id \<in> set (get_read_ids multi_f5) \<and> binning read_id = Some grp \<and>
            (\<forall>e. FailedWriteMultiRead e (bin_path output_folder grp input_file) \<notin> set (log w')) \<and>
            (\<forall>e. FailedAddSingleRead e read_id (bin_path output_folder grp input_file) \<notin> set (log w')) \<longrightarrow>
            read_id \<in> read_ids_at (fs w') (bin_path output_folder grp input_file)"
    by blast
  from a b' bin_path_as_written show ?thesis by blast
qed

theorem binned_reads_placement_witness:
  "''r1'' \<in> read_ids_at (fs (snd (batch_split_multi_to_adapter_multi [''in/a.fast5'', ''in/b.fast5''] ''out'' 2
         [''r1'' \<mapsto> ''A'', ''r2'' \<mapsto> ''B'', ''r4'' \<mapsto> ''A'']
         \<lparr>fs = [''in/a.fast5'' \<mapsto> Fast5 [(''r1'', \<lparr>run_id = Some ''run'', groups = [(''Raw'', Data ''s1'')]\<rparr>),
                                         (''r2'', \<lparr>run_id = Some ''run'', groups = [(''Raw'', Data ''s2'')]\<rparr>),
                                         (''r3'', \<lparr>run_id = Some ''run'', groups = [(''Raw'', Data ''s3'')]\<rparr>)],
                ''in/b.fast5'' \<mapsto> Fast5 [(''r4'', \<lparr>run_id = Some ''run'', groups = [(''Raw'', Data ''s4'')]\<rparr>)]],
          log = [], handles = []\<rparr>))) ''out/A/a.fast5''
   \<and> ''r4'' \<in> read_ids_at (fs (snd (batch_split_multi_to_adapter_multi [''in/a.fast5'', ''in/b.fast5''] ''out'' 2
         [''r1'' \<mapsto> ''A'', ''r2'' \<mapsto> ''B'', ''r4'' \<mapsto> ''A'']
         \<lparr>fs = [''in/a.fast5'' \<mapsto> Fast5 [(''r1'', \<lparr>run_id = Some ''run'', groups = [(''Raw'', Data ''s1'')]\<rparr>),
                                         (''r2'', \<lparr>run_id = Some ''run'', groups = [(''Raw'', Data ''s2'')]\<rparr>),
                                         (''r3'', \<lparr>run_id = Some ''run'', groups = [(''Raw'', Data ''s3'')]\<rparr>)],
                ''in/b.fast5'' \<mapsto> Fast5 [(''r4'', \<lparr>run_id = Some ''run'', groups = [(''Raw'', Data ''s4'')]\<rparr>)]],
          log = [], handles = []\<rparr>))) ''out/A/b.fast5''
   \<and> ''r3'' \<notin> read_ids_at (fs (snd (batch_split_multi_to_adapter_multi [''in/a.fast5'', ''in/b.fast5''] ''out'' 2
         [''r1'' \<mapsto> ''A'', ''r2'' \<mapsto> ''B'', ''r4'' \<mapsto> ''A'']
         \<lparr>fs = [''in/a.fast5'' \<mapsto> Fast5 [(''r1'', \<lparr>run_id = Some ''run'', groups = [(''Raw'', Data ''s1'')]\<rparr>),
                                         (''r2'', \<lparr>run_id = Some ''run'', groups = [(''Raw'', Data ''s2'')]\<rparr>),
                                         (''r3'', \<lparr>run_id = Some ''run'', groups = [(''Raw'', Data ''s3'')]\<rparr>)],
                ''in/b.fast5'' \<mapsto> Fast5 [(''r4'', \<lparr>run_id = Some ''run'', groups = [(''Raw'', Data ''s4'')]\<rparr>)]],
          log = [], handles = []\<rparr>))) ''out/A/a.fast5''"
proof -
  define w :: world where "w = \<lparr>fs = [''in/a.fast5'' \<mapsto> Fast5 [(''r1'', \<lparr>run_id = Some ''run'', groups = [(''Raw'', Data ''s1'')]\<rparr>),
                                         (''r2'', \<lparr>run_id = Some ''run'', groups = [(''Raw'', Data ''s2'')]\<rparr>),
                                         (''r3'', \<lparr>run_id = Some ''run'', groups = [(''Raw'', Data ''s3'')]\<rparr>)],
                ''in/b.fast5'' \<mapsto> Fast5 [(''r4'', \<lparr>run_id = Some ''run'', groups = [(''Raw'', Data ''s4'')]\<rparr>)]],
          log = [], handles = []\<rparr>"
  define b :: "string \<rightharpoonup> string" where "b = [''r1'' \<mapsto> ''A'', ''r2'' \<mapsto> ''B'', ''r4'' \<mapsto> ''A'']"
  define run where "run = batch_split_multi_to_adapter_multi [''in/a.fast5'', ''in/b.fast5''] ''out'' 2 b w"
  have eq: "batch_split_multi_to_adapter_multi [''in/a.fast5'', ''in/b.fast5''] ''out'' 2 b w
              = (fst run, snd run)"
    by (simp add: run_def)
  note t = binned_reads_placement[OF eq]
  have ok: "fst run = None" unfolding run_def b_def w_def by code_simp
  have lg: "log (snd run) = []" unfolding run_def b_def w_def by code_simp
  have pa: "spec_bin_path ''out'' ''A'' ''in/a.fast5'' = ''out/A/a.fast5''"
    and pb: "spec_bin_path ''out'' ''A'' ''in/b.fast5'' = ''out/A/b.fast5''"
    by code_simp+
  have cond: "''out'' \<noteq> [] \<and> last ''out'' \<noteq> CHR ''/'' \<and> ''A'' \<noteq> [] \<and> hd ''A'' \<noteq> CHR ''/'' \<and>
              last ''A'' \<noteq> CHR ''/''"
    by simp
  from t cond have qa: "bin_path ''out'' ''A'' ''in/a.fast5'' = ''out/A/a.fast5''"
    and qb: "bin_path ''out'' ''A'' ''in/b.fast5'' = ''out/A/b.fast5''"
    unfolding pa[symmetric] pb[symmetric] by blast+
  have h1: "''in/a.fast5'' \<in> set [''in/a.fast5'', ''in/b.fast5''] \<and>
            fs w ''in/a.fast5'' = Some (Fast5 [(''r1'', \<lparr>run_id = Some ''run'', groups = [(''Raw'', Data ''s1'')]\<rparr>),
                                         (''r2'', \<lparr>run_id = Some ''run'', groups = [(''Raw'', Data ''s2'')]\<rparr>),
                                         (''r3'', \<lparr>run_id = Some ''run'', groups = [(''Raw'', Data ''s3'')]\<rparr>)]) \<and>
            ''r1'' \<in> set (get_read_ids [(''r1'', \<lparr>run_id = Some ''run'', groups = [(''Raw'', Data ''s1'')]\<rparr>),
                                         (''r2'', \<lparr>run_id = Some ''run'', groups = [(''Raw'', Data ''s2'')]\<rparr>),
                                         (''r3'', \<lparr>run_id = Some ''run'', groups = [(''Raw'', Data ''s3'')]\<rparr>)]) \<and>
            b ''r1'' = Some ''A''"
    by (simp add: w_def b_def get_read_ids_def)
  have h4: "''in/b.fast5'' \<in> set [''in/a.fast5'', ''in/b.fast5''] \<and>
            fs w ''in/b.fast5'' = Some (Fast5 [(''r4'', \<lparr>run_id = Some ''run'', groups = [(''Raw'', Data ''s4'')]\<rparr>)]) \<and>
            ''r4'' \<in> set (get_read_ids [(''r4'', \<lparr>run_id = Some ''run'', groups = [(''Raw'', Data ''s4'')]\<rparr>)]) \<and>
            b ''r4'' = Some ''A''"
    by (simp add: w_def b_def get_read_ids_def)
  have nl: "\<forall>m. m \<notin> set (log (snd run))" by (simp add: lg)
  from t h1 ok nl have r1: "''r1'' \<in> read_ids_at (fs (snd run)) (bin_path ''out'' ''A'' ''in/a.fast5'')"
    by blast
  from t h4 ok nl have r4: "''r4'' \<in> read_ids_at (fs (snd run)) (bin_path ''out'' ''A'' ''in/b.fast5'')"
    by blast
  have "''r3'' \<notin> read_ids_at (fs w) ''out/A/a.fast5''" by (simp add: w_def read_ids_at_def)
  moreover have "b ''r3'' = None" by (simp add: b_def)
  ultimately have r3: "''r3'' \<notin> read_ids_at (fs (snd run)) ''out/A/a.fast5''"
    using t by (metis option.distinct(1))
  from r1 r4 r3 have "''r1'' \<in> read_ids_at (fs (snd run)) ''out/A/a.fast5''
      \<and> ''r4'' \<in> read_ids_at (fs (snd run)) ''out/A/b.fast5''
      \<and> ''r3'' \<notin> read_ids_at (fs (snd run)) ''out/A/a.fast5''"
    unfolding qa qb by blast
  then show ?thesis unfolding run_def b_def w_def .
qed

text \<open>
  Claim C4 as it is stated does not hold for a label that begins with a slash:
  \<open>os.path.join\<close> then drops the output root. The read \<open>r1\<close> with the label
  \<open>/tmp/L\<close> is copied without any failure, and it is in the container at
  \<open>/tmp/L/a.fast5\<close>, not at the path made of output root, label and base name.
\<close>

theorem binned_read_outside_output_root:
  "fst (batch_split_multi_to_adapter_multi [''in/a.fast5''] ''out'' 1 [''r1'' \<mapsto> ''/tmp/L'']
         \<lparr>fs = [''in/a.fast5'' \<mapsto> Fast5 [(''r1'', \<lparr>run_id = Some ''run'', groups = [(''Raw'', Data ''s1'')]\<rparr>)]],
          log = [], handles = []\<rparr>) = None
   \<and> log (snd (batch_split_multi_to_adapter_multi [''in/a.fast5''] ''out'' 1 [''r1'' \<mapsto> ''/tmp/L'']
         \<lparr>fs = [''in/a.fast5'' \<mapsto> Fast5 [(''r1'', \<lparr>run_id = Some ''run'', groups = [(''Raw'', Data ''s1'')]\<rparr>)]],
          log = [], handles = []\<rparr>)) = []
   \<and> ''r1'' \<in> read_ids_at (fs (snd (batch_split_multi_to_adapter_multi [''in/a.fast5''] ''out'' 1 [''r1'' \<mapsto> ''/tmp/L'']
         \<lparr>fs = [''in/a.fast5'' \<mapsto> Fast5 [(''r1'', \<lparr>run_id = Some ''run'', groups = [(''Raw'', Data ''s1'')]\<rparr>)]],
          log = [], handles = []\<rparr>))) ''/tmp/L/a.fast5''
   \<and> ''r1'' \<notin> read_ids_at (fs (snd (batch_split_multi_to_adapter_multi [''in/a.fast5''] ''out'' 1 [''r1'' \<mapsto> ''/tmp/L'']
         \<lparr>fs = [''in/a.fast5'' \<mapsto> Fast5 [(''r1'', \<lparr>run_id = Some ''run'', groups = [(''Raw'', Data ''s1'')]\<rparr>)]],
          log = [], handles = []\<rparr>))) (spec_bin_path ''out'' ''/tmp/L'' ''in/a.fast5'')
   \<and> spec_bin_path ''out'' ''/tmp/L'' ''in/a.fast5'' = ''out//tmp/L/a.fast5''"
  by code_simp


text \<open>
  Claim C7. In a binning-mode run on one input file: when the input container cannot be
  opened, the failure is logged, the result names the file once, and no file is changed.
  When the destination container of a label that has a read cannot be opened, that failure
  is logged for the destination, and every label is still worked through: each read with
  an entry in the table is in the destination of its label after the run, unless a failure
  of that destination or of the copy of that read was logged.
\<close>

theorem binning_failure_isolation:
  assumes "multi_to_adapter_multi input_file output_folder binning w = (results, w')"
  shows "(\<forall>e. open_read (fs w) input_file = Inl e \<longrightarrow>
            results = [basename input_file] \<and> fs w' = fs w \<and>
            log w' = log w @ [FailedCopyFrom e input_file]) \<and>
         (\<forall>multi_f5 read_id grp e.
            fs w input_file = Some (Fast5 multi_f5) \<and>
            read_id \<in> set (get_read_ids multi_f5) \<and> binning read_id = Some grp \<and>
            open_append (fs w) (bin_path output_folder grp input_file) = Inl e \<longrightarrow>
            FailedWriteMultiRead e (bin_path output_folder grp input_file) \<in> set (log w') \<and>
            (\<forall>read_id' grp'. read_id' \<in> set (get_read_ids multi_f5) \<and> binning read_id' = Some grp' \<longrightarrow>
               read_id' \<in> read_ids_at (fs w') (bin_path output_folder grp' input_file) \<or>
               (\<exists>e'. FailedWriteMultiRead e' (bin_path output_folder grp' input_file) \<in> set (log w')) \<or>
               (\<exists>e'. FailedAddSingleRead e' read_id' (bin_path output_folder grp' input_file) \<in> set (log w'))))"
proof -
  have a: "results = [basename input_file] \<and> fs w' = fs w \<and>
           log w' = log w @ [FailedCopyFrom e input_file]"
    if "open_read (fs w) input_file = Inl e" for e
    using multi_to_adapter_multi_unopened[OF that] assms by auto
  show ?thesis
    using a binned_destination_failure_logged[OF assms] binned_read_processed[OF assms]
    by blast
qed


theorem binning_failure_isolation_witness:
  "FailedWriteMultiRead OSError ''out/A/a.fast5'' \<in> set (log (snd
      (multi_to_adapter_multi ''in/a.fast5'' ''out'' [''r1'' \<mapsto> ''A'', ''r2'' \<mapsto> ''B'']
         \<lparr>fs = [''in/a.fast5'' \<mapsto> Fast5 [(''r1'', \<lparr>run_id = Some ''run'', groups = [(''Raw'', Data ''s1'')]\<rparr>),
                                         (''r2'', \<lparr>run_id = Some ''run'', groups = [(''Raw'', Data ''s2'')]\<rparr>)],
                ''out/A/a.fast5'' \<mapsto> Other [''no container'']],
          log = [], handles = []\<rparr>)))
   \<and> ''r2'' \<in> read_ids_at (fs (snd
      (multi_to_adapter_multi ''in/a.fast5'' ''out'' [''r1'' \<mapsto> ''A'', ''r2'' \<mapsto> ''B'']
         \<lparr>fs = [''in/a.fast5'' \<mapsto> Fast5 [(''r1'', \<lparr>run_id = Some ''run'', groups = [(''Raw'', Data ''s1'')]\<rparr>),
                                         (''r2'', \<lparr>run_id = Some ''run'', groups = [(''Raw'', Data ''s2'')]\<rparr>)],
                ''out/A/a.fast5'' \<mapsto> Other [''no container'']],
          log = [], handles = []\<rparr>))) ''out/B/a.fast5''
   \<and> log (snd (multi_to_adapter_multi ''in/b.fast5'' ''out'' [''r1'' \<mapsto> ''A'', ''r2'' \<mapsto> ''B'']
         \<lparr>fs = [''in/b.fast5'' \<mapsto> Other [''no container'']], log = [], handles = []\<rparr>))
       = [FailedCopyFrom OSError ''in/b.fast5'']"
proof -
  let ?c = "[(''r1'', \<lparr>run_id = Some ''run'', groups = [(''Raw'', Data ''s1'')]\<rparr>),
             (''r2'', \<lparr>run_id = Some ''run'', groups = [(''Raw'', Data ''s2'')]\<rparr>)]"
  let ?w = "\<lparr>fs = [''in/a.fast5'' \<mapsto> Fast5 ?c, ''out/A/a.fast5'' \<mapsto> Other [''no container'']],
             log = [], handles = []\<rparr>"
  let ?v = "\<lparr>fs = [''in/b.fast5'' \<mapsto> Other [''no container'']], log = [], handles = []\<rparr>"
  let ?b = "[''r1'' \<mapsto> ''A'', ''r2'' \<mapsto> ''B'']"
  let ?run = "multi_to_adapter_multi ''in/a.fast5'' ''out'' ?b ?w"
  let ?run2 = "multi_to_adapter_multi ''in/b.fast5'' ''out'' ?b ?v"
  have eq: "?run = (fst ?run, snd ?run)" by (rule surjective_pairing)
  have eq2: "?run2 = (fst ?run2, snd ?run2)" by (rule surjective_pairing)
  have pa: "bin_path ''out'' ''A'' ''in/a.fast5'' = ''out/A/a.fast5''" by code_simp
  have pb: "bin_path ''out'' ''B'' ''in/a.fast5'' = ''out/B/a.fast5''" by code_simp
  have h: "fs ?w ''in/a.fast5'' = Some (Fast5 ?c) \<and> ''r1'' \<in> set (get_read_ids ?c) \<and>
           ?b ''r1'' = Some ''A'' \<and>
           open_append (fs ?w) (bin_path ''out'' ''A'' ''in/a.fast5'') = Inl OSError"
    unfolding pa by (simp add: get_read_ids_def open_append_def)
  from binning_failure_isolation[OF eq] h
  have l: "FailedWriteMultiRead OSError (bin_path ''out'' ''A'' ''in/a.fast5'') \<in> set (log (snd ?run))"
    and rest: "\<forall>read_id' grp'. read_id' \<in> set (get_read_ids ?c) \<and> ?b read_id' = Some grp' \<longrightarrow>
               read_id' \<in> read_ids_at (fs (snd ?run)) (bin_path ''out'' grp' ''in/a.fast5'') \<or>
               (\<exists>e'. FailedWriteMultiRead e' (bin_path ''out'' grp' ''in/a.fast5'') \<in> set (log (snd ?run))) \<or>
               (\<exists>e'. FailedAddSingleRead e' read_id' (bin_path ''out'' grp' ''in/a.fast5'') \<in> set (log (snd ?run)))"
    by blast+
  have lg: "log (snd ?run) = [FailedWriteMultiRead OSError ''out/A/a.fast5'']" by code_simp
  have "''r2'' \<in> set (get_read_ids ?c) \<and> ?b ''r2'' = Some ''B''"
    by (simp add: get_read_ids_def)
  with rest have "''r2'' \<in> read_ids_at (fs (snd ?run)) (bin_path ''out'' ''B'' ''in/a.fast5'') \<or>
               (\<exists>e'. FailedWriteMultiRead e' (bin_path ''out'' ''B'' ''in/a.fast5'') \<in> set (log (snd ?run))) \<or>
               (\<exists>e'. FailedAddSingleRead e' ''r2'' (bin_path ''out'' ''B'' ''in/a.fast5'') \<in> set (log (snd ?run)))"
    by blast
  then have r2: "''r2'' \<in> read_ids_at (fs (snd ?run)) ''out/B/a.fast5''"
    unfolding pb lg by simp
  have "open_read (fs ?v) ''in/b.fast5'' = Inl OSError" by (simp add: open_read_def)
  with binning_failure_isolation[OF eq2]
  have third: "log (snd ?run2) = log ?v @ [FailedCopyFrom OSError ''in/b.fast5'']" by blast
  from l r2 third show ?thesis unfolding pa by simp
qed


section \<open>Batch mode: the names of the outputs\<close>

lemma digit_char_inj:
  assumes "a < 10" and "b < 10" and "(char_of (48 + a :: nat) :: char) = char_of (48 + b)"
  shows "a = b"
proof -
  from assms(3) have "(48 + a) mod 256 = (48 + b) mod 256"
    by (simp add: char_of_eq_iff take_bit_eq_mod)
  with assms(1,2) show ?thesis by simp
qed

lemma str_nat_not_Nil: "str_nat n \<noteq> []"
  by (subst str_nat.simps) simp

lemma str_nat_inj: "str_nat m = str_nat n \<Longrightarrow> m = n"
proof (induction m arbitrary: n rule: less_induct)
  case (less m)
  show ?case
  proof (cases "m < 10")
    case True
    show ?thesis
    proof (cases "n < 10")
      case n: True
      from less.prems True n have "(char_of (48 + m) :: char) = char_of (48 + n)"
        by (simp add: str_nat.simps[of m] str_nat.simps[of n])
      with True n show ?thesis by (rule digit_char_inj)
    next
      case False
      with less.prems True have "[char_of (48 + m) :: char] = str_nat (n div 10) @ [char_of (48 + n mod 10)]"
        by (simp add: str_nat.simps[of m] str_nat.simps[of n])
      with str_nat_not_Nil[of "n div 10"] show ?thesis by (cases "str_nat (n div 10)") auto
    qed
  next
    case False
    show ?thesis
    proof (cases "n < 10")
      case True
      with less.prems False have "str_nat (m div 10) @ [char_of (48 + m mod 10)] = [char_of (48 + n) :: char]"
        by (simp add: str_nat.simps[of m] str_nat.simps[of n])
      with str_nat_not_Nil[of "m div 10"] show ?thesis by (cases "str_nat (m div 10)") auto
    next
      case n: False
      from less.prems False n
      have "str_nat (m div 10) @ [char_of (48 + m mod 10)] = str_nat (n div 10) @ [char_of (48 + n mod 10)]"
        by (simp add: str_nat.simps[of m] str_nat.simps[of n])
      then have a: "str_nat (m div 10) = str_nat (n div 10)"
        and b: "(char_of (48 + m mod 10) :: char) = char_of (48 + n mod 10)"
        by simp_all
      from False have "m div 10 < m" by simp
      from less.IH[OF this a] have d: "m div 10 = n div 10" .
      have "m mod 10 = n mod 10" using _ _ b by (rule digit_char_inj) simp_all
      with d show ?thesis by (metis div_mult_mod_eq)
    qed
  qed
qed

lemma join2_inj:
  assumes "join2 path b1 = join2 path b2" and "b1 \<noteq> []" and "b2 \<noteq> []" and "hd b1 = hd b2"
  shows "b1 = b2"
  using assms by (auto simp: join2_def split: if_splits)

lemma batch_path_inj:
  "batch_path output_folder filename_base m = batch_path output_folder filename_base n \<Longrightarrow> m = n"
proof -
  assume a: "batch_path output_folder filename_base m = batch_path output_folder filename_base n"
  let ?b = "\<lambda>k. filename_base @ ''_'' @ str_nat k @ ''.fast5''"
  have hd: "hd (?b m) = hd (?b n)" by (cases filename_base) simp_all
  from a have "join2 output_folder (?b m) = join2 output_folder (?b n)"
    by (simp add: batch_path_def path_join_def)
  from join2_inj[OF this _ _ hd] have "?b m = ?b n" by simp
  then have "str_nat m = str_nat n" by simp
  then show ?thesis by (rule str_nat_inj)
qed


section \<open>Batch mode: the sizes of the outputs\<close>

lemma write_read_sel [simp]:
  "output_file (write_read multi_f5 read_id s) = output_file s"
  by (auto simp: write_read_def Let_def split: option.splits disk_file.splits prod.splits)










lemma batch_path_eq [simp]:
  "batch_path output_folder filename_base m = batch_path output_folder filename_base n \<longleftrightarrow> m = n"
  by (auto dest: batch_path_inj)



lemma batch_inv_handles [simp]:
  "batch_inv output_folder filename_base batch_size f0 k (open_handle p s)
     = batch_inv output_folder filename_base batch_size f0 k s"
  "batch_inv output_folder filename_base batch_size f0 k (close p s)
     = batch_inv output_folder filename_base batch_size f0 k s"
  by (simp_all add: batch_inv_def)












end
